theory Spec2Isabelle
  imports Complex_Main "HOL-Library.Word"
begin

section \<open>Three-dimensional beam finite element analysis\<close>

text \<open>
  A shallow embedding of the numerical core of \<^verbatim>\<open>threed_beam_fea.cpp\<close>: the element
  kernel (\<^verbatim>\<open>calcKelem\<close>, \<^verbatim>\<open>calcAelem\<close>), the assembler
  (\<^verbatim>\<open>GlobalStiffAssembler::operator()\<close>, \<^verbatim>\<open>loadTies\<close>, \<^verbatim>\<open>loadBCs\<close>,
  \<^verbatim>\<open>loadForces\<close>) and the post-processing of \<^verbatim>\<open>solve\<close>. \<^verbatim>\<open>loadEquations\<close> and the
  \<^verbatim>\<open>solve\<close> with equation constraints, which threed_beam_fea.h declares and no source
  file defines, follow the specification.

  Conventions of the embedding.
  \<^item> A \<^verbatim>\<open>double\<close> is a \<^typ>\<open>real\<close>: arithmetic is exact, rounding is not modelled.
    IEEE division by zero raises nothing in the source (the quotient is an infinity or a
    NaN); HOL's \<open>x / 0\<close> is \<open>0\<close>. The theorems about the values of entries are stated
    for elements whose endpoints are distinct and whose reference normal is not parallel
    to the axis, for which no divisor is zero; the theorem about a parallel normal states
    only that no error is signalled.
  \<^item> \<^verbatim>\<open>unsigned int\<close> and \<^verbatim>\<open>int\<close> are \<^typ>\<open>32 word\<close>, read with \<^const>\<open>unat\<close> and
    \<^const>\<open>sint\<close>; arithmetic on them wraps.
  \<^item> Reading a \<^verbatim>\<open>std::vector\<close> out of range, and breaking a precondition that Eigen
    checks with an assertion, is an error value.
  \<^item> The timings of the summary, the contents of the files written and the text of the
    report are not modelled; that a file cannot be opened is.
\<close>

subsection \<open>Containers (containers.h)\<close>

type_synonym Vector3d = "real \<times> real \<times> real"

type_synonym Node = Vector3d

record Props =
  EA :: real
  EIz :: real
  EIy :: real
  GJ :: real
  normal_vec :: Vector3d

record Job =
  nodes :: "Node list"
  elems :: "(32 word \<times> 32 word) list"
  props :: "Props list"

text \<open>The member \<^verbatim>\<open>value\<close> of \<^verbatim>\<open>BC\<close> and \<^verbatim>\<open>Force\<close> is the field \<open>val\<close>. The node numbers of
  an element are \<^verbatim>\<open>int\<close>s (\<^verbatim>\<open>Eigen::Vector2i\<close>), all other indices are \<^verbatim>\<open>unsigned int\<close>s.\<close>

record BC =
  node :: "32 word"
  dof :: "32 word"
  val :: real

record Force =
  node :: "32 word"
  dof :: "32 word"
  val :: real

record Tie =
  node_number_1 :: "32 word"
  node_number_2 :: "32 word"
  lmult :: real
  rmult :: real

record Term =
  node_number :: "32 word"
  dof :: "32 word"
  coefficient :: real

record Equation =
  terms :: "Term list"

text \<open>The failures of the model. \<open>IndexOutOfRange\<close>: a \<^verbatim>\<open>std::vector\<close> or an Eigen matrix
  is addressed out of range. \<open>NegativeSize\<close>: a matrix is constructed with a negative
  dimension. \<open>InsertExisting\<close>: \<^verbatim>\<open>SparseMatrix::insert\<close> is called on a coefficient that is
  already stored. \<open>SolverFailed\<close>: the sparse LU solver gives no solution.
  \<open>FileError\<close>: the \<^verbatim>\<open>std::runtime_error\<close> thrown when an output file cannot be opened.\<close>

datatype error = IndexOutOfRange | NegativeSize | InsertExisting | SolverFailed | FileError string

subsection \<open>Eigen's fixed-size vectors and matrices\<close>

fun at3 :: "Vector3d \<Rightarrow> nat \<Rightarrow> real" where
  "at3 (a, b, c) i = (if i = 0 then a else if i = 1 then b else c)"

fun vminus :: "Vector3d \<Rightarrow> Vector3d \<Rightarrow> Vector3d" where
  "vminus (a0, a1, a2) (b0, b1, b2) = (a0 - b0, a1 - b1, a2 - b2)"

fun cross :: "Vector3d \<Rightarrow> Vector3d \<Rightarrow> Vector3d" where
  "cross (a0, a1, a2) (b0, b1, b2) =
     (a1 * b2 - a2 * b1, a2 * b0 - a0 * b2, a0 * b1 - a1 * b0)"

fun squaredNorm :: "Vector3d \<Rightarrow> real" where
  "squaredNorm (a, b, c) = a * a + b * b + c * c"

fun vdiv :: "Vector3d \<Rightarrow> real \<Rightarrow> Vector3d" where
  "vdiv (a, b, c) d = (a / d, b / d, c / d)"

definition vnorm :: "Vector3d \<Rightarrow> real" where
  "vnorm v = sqrt (squaredNorm v)"

text \<open>\<^verbatim>\<open>normalize\<close>/\<^verbatim>\<open>normalized\<close> of Eigen: the vector is divided by its norm when
  the squared norm is positive and left alone otherwise.\<close>

definition normalized :: "Vector3d \<Rightarrow> Vector3d" where
  "normalized v = (let z = squaredNorm v in if z > 0 then vdiv v (sqrt z) else v)"

text \<open>\<^verbatim>\<open>LocalMatrix\<close>: a 12 by 12 matrix of doubles, addressed by (row, column). The
  source reads and writes rows and columns 0 to 11 only; the products and the identity
  are zero outside them.\<close>

type_synonym LocalMatrix = "nat \<times> nat \<Rightarrow> real"

definition mat_mul :: "LocalMatrix \<Rightarrow> LocalMatrix \<Rightarrow> LocalMatrix" where
  "mat_mul A B = (\<lambda>(i, j). \<Sum>k<12. A (i, k) * B (k, j))"

definition mat_transpose :: "LocalMatrix \<Rightarrow> LocalMatrix" where
  "mat_transpose A = (\<lambda>(i, j). A (j, i))"

definition mat_identity :: LocalMatrix where
  "mat_identity = (\<lambda>(i, j). if i = j \<and> i < 12 then 1 else 0)"

subsection \<open>The element kernel\<close>

text \<open>\<^verbatim>\<open>inline double norm(const Node &n1, const Node &n2)\<close>\<close>

definition norm_nodes :: "Node \<Rightarrow> Node \<Rightarrow> real" where
  "norm_nodes n1 n2 = vnorm (vminus n2 n1)"

record GlobalStiffAssembler =
  Kelem :: LocalMatrix
  Klocal :: LocalMatrix
  Aelem :: LocalMatrix
  AelemT :: LocalMatrix

text \<open>The constructor sets every entry of the member matrices to zero.\<close>

definition GlobalStiffAssembler_new :: GlobalStiffAssembler where
  "GlobalStiffAssembler_new =
     \<lparr>Kelem = (\<lambda>_. 0), Klocal = (\<lambda>_. 0), Aelem = (\<lambda>_. 0), AelemT = (\<lambda>_. 0)\<rparr>"

definition calcAelem :: "Vector3d \<Rightarrow> Vector3d \<Rightarrow> GlobalStiffAssembler \<Rightarrow> GlobalStiffAssembler" where
  "calcAelem nx ny s =
     (let nz = cross nx ny;
          dlz = squaredNorm nz;
          nz = vdiv nz dlz
      in s\<lparr>Aelem := (Aelem s)
          ((0, 0) := at3 nx 0, (0, 1) := at3 nx 1, (0, 2) := at3 nx 2,
           (1, 0) := at3 ny 0, (1, 1) := at3 ny 1, (1, 2) := at3 ny 2,
           (2, 0) := at3 nz 0, (2, 1) := at3 nz 1, (2, 2) := at3 nz 2,
           (3, 3) := at3 nx 0, (3, 4) := at3 nx 1, (3, 5) := at3 nx 2,
           (4, 3) := at3 ny 0, (4, 4) := at3 ny 1, (4, 5) := at3 ny 2,
           (5, 3) := at3 nz 0, (5, 4) := at3 nz 1, (5, 5) := at3 nz 2,
           (6, 6) := at3 nx 0, (6, 7) := at3 nx 1, (6, 8) := at3 nx 2,
           (7, 6) := at3 ny 0, (7, 7) := at3 ny 1, (7, 8) := at3 ny 2,
           (8, 6) := at3 nz 0, (8, 7) := at3 nz 1, (8, 8) := at3 nz 2,
           (9, 9) := at3 nx 0, (9, 10) := at3 nx 1, (9, 11) := at3 nx 2,
           (10, 9) := at3 ny 0, (10, 10) := at3 ny 1, (10, 11) := at3 ny 2,
           (11, 9) := at3 nz 0, (11, 10) := at3 nz 1, (11, 11) := at3 nz 2),
         AelemT := (AelemT s)
          ((0, 0) := at3 nx 0, (0, 1) := at3 ny 0, (0, 2) := at3 nz 0,
           (1, 0) := at3 nx 1, (1, 1) := at3 ny 1, (1, 2) := at3 nz 1,
           (2, 0) := at3 nx 2, (2, 1) := at3 ny 2, (2, 2) := at3 nz 2,
           (3, 3) := at3 nx 0, (3, 4) := at3 ny 0, (3, 5) := at3 nz 0,
           (4, 3) := at3 nx 1, (4, 4) := at3 ny 1, (4, 5) := at3 nz 1,
           (5, 3) := at3 nx 2, (5, 4) := at3 ny 2, (5, 5) := at3 nz 2,
           (6, 6) := at3 nx 0, (6, 7) := at3 ny 0, (6, 8) := at3 nz 0,
           (7, 6) := at3 nx 1, (7, 7) := at3 ny 1, (7, 8) := at3 nz 1,
           (8, 6) := at3 nx 2, (8, 7) := at3 ny 2, (8, 8) := at3 nz 2,
           (9, 9) := at3 nx 0, (9, 10) := at3 ny 0, (9, 11) := at3 nz 0,
           (10, 9) := at3 nx 1, (10, 10) := at3 ny 1, (10, 11) := at3 nz 1,
           (11, 9) := at3 nx 2, (11, 10) := at3 ny 2, (11, 11) := at3 nz 2)\<rparr>)"

text \<open>An \<^verbatim>\<open>int\<close> used as the index of a \<^verbatim>\<open>std::vector\<close> addresses an element only when
  it is non-negative and below the size.\<close>

definition in_range :: "32 word \<Rightarrow> 'a list \<Rightarrow> bool" where
  "in_range n xs \<longleftrightarrow> 0 \<le> sint n \<and> nat (sint n) < length xs"

definition calcKelem :: "nat \<Rightarrow> Job \<Rightarrow> GlobalStiffAssembler \<Rightarrow> error + GlobalStiffAssembler" where
  "calcKelem i job s =
     (if \<not> (i < length (props job) \<and> i < length (elems job)) then Inl IndexOutOfRange
      else
        let EA = EA (props job ! i);
            EIz = EIz (props job ! i);
            EIy = EIy (props job ! i);
            GJ = GJ (props job ! i);
            nn1 = fst (elems job ! i);
            nn2 = snd (elems job ! i)
        in
        if \<not> (in_range nn1 (nodes job) \<and> in_range nn2 (nodes job)) then Inl IndexOutOfRange
        else
          let p1 = nodes job ! nat (sint nn1);
              p2 = nodes job ! nat (sint nn2);
              len = norm_nodes p1 p2;
              tmpEA = EA / len;
              tmpGJ = GJ / len;
              tmp12z = 12 * EIz / (len * len * len);
              tmp6z = 6 * EIz / (len * len);
              tmp1z = EIz / len;
              tmp12y = 12 * EIy / (len * len * len);
              tmp6y = 6 * EIy / (len * len);
              tmp1y = EIy / len;
              s1 = s\<lparr>Klocal := (Klocal s)
                ((0, 0) := tmpEA, (0, 6) := - tmpEA, (1, 1) := tmp12z,
                 (1, 5) := tmp6z, (1, 7) := - tmp12z, (1, 11) := tmp6z,
                 (2, 2) := tmp12y, (2, 4) := - tmp6y, (2, 8) := - tmp12y,
                 (2, 10) := - tmp6y, (3, 3) := tmpGJ, (3, 9) := - tmpGJ,
                 (4, 2) := - tmp6y, (4, 4) := 4 * tmp1y, (4, 8) := tmp6y,
                 (4, 10) := 2 * tmp1y, (5, 1) := tmp6z, (5, 5) := 4 * tmp1z,
                 (5, 7) := - tmp6z, (5, 11) := 2 * tmp1z, (6, 0) := - tmpEA,
                 (6, 6) := tmpEA, (7, 1) := - tmp12z, (7, 5) := - tmp6z,
                 (7, 7) := tmp12z, (7, 11) := - tmp6z, (8, 2) := - tmp12y,
                 (8, 4) := tmp6y, (8, 8) := tmp12y, (8, 10) := tmp6y,
                 (9, 3) := - tmpGJ, (9, 9) := tmpGJ, (10, 2) := - tmp6y,
                 (10, 4) := 2 * tmp1y, (10, 8) := tmp6y, (10, 10) := 4 * tmp1y,
                 (11, 1) := tmp6z, (11, 5) := 2 * tmp1z, (11, 7) := - tmp6z,
                 (11, 11) := 4 * tmp1z)\<rparr>;
              nx = normalized (vminus p2 p1);
              ny = normalized (normal_vec (props job ! i));
              s2 = calcAelem nx ny s1
          in Inr (s2\<lparr>Kelem := mat_mul (mat_mul (AelemT s2) (Klocal s2)) (Aelem s2)\<rparr>))"

subsection \<open>Eigen's sparse matrices\<close>

text \<open>A \<^verbatim>\<open>SparseMat\<close> is its dimensions and its stored coefficients; a coefficient that is
  not stored reads as zero. A stored coefficient may hold zero.\<close>

record SparseMat =
  rows :: nat
  cols :: nat
  coeffs :: "nat \<times> nat \<rightharpoonup> real"

definition SparseMat_new :: "nat \<Rightarrow> nat \<Rightarrow> SparseMat" where
  "SparseMat_new r c = \<lparr>rows = r, cols = c, coeffs = Map.empty\<rparr>"

definition coeff :: "SparseMat \<Rightarrow> nat \<times> nat \<Rightarrow> real" where
  "coeff m rc = (case coeffs m rc of None \<Rightarrow> 0 | Some v \<Rightarrow> v)"

text \<open>\<^verbatim>\<open>Eigen::Triplet<double>\<close>: row, column (of type \<^verbatim>\<open>int\<close>) and value.\<close>

type_synonym Triplet = "int \<times> int \<times> real"

definition triplet_in_range :: "SparseMat \<Rightarrow> Triplet \<Rightarrow> bool" where
  "triplet_in_range m t =
     (case t of (i, j, v) \<Rightarrow> 0 \<le> i \<and> i < int (rows m) \<and> 0 \<le> j \<and> j < int (cols m))"

fun add_triplet :: "Triplet \<Rightarrow> (nat \<times> nat \<rightharpoonup> real) \<Rightarrow> (nat \<times> nat \<rightharpoonup> real)" where
  "add_triplet (i, j, v) c =
     c((nat i, nat j) \<mapsto> (case c (nat i, nat j) of None \<Rightarrow> v | Some w \<Rightarrow> w + v))"

text \<open>\<^verbatim>\<open>setFromTriplets\<close> discards what the matrix held and stores one coefficient for every
  coordinate that occurs in the list, the sum of the values given for it. Eigen asserts
  that every triplet lies inside the matrix.\<close>

definition setFromTriplets :: "Triplet list \<Rightarrow> SparseMat \<Rightarrow> error + SparseMat" where
  "setFromTriplets ts m =
     (if list_all (triplet_in_range m) ts
      then Inr (m\<lparr>coeffs := fold add_triplet ts Map.empty\<rparr>)
      else Inl IndexOutOfRange)"

text \<open>\<^verbatim>\<open>insert(i, j) = v\<close> creates a coefficient. Its precondition, asserted by Eigen, is
  that (i, j) lies inside the matrix and that no coefficient is stored there yet
  (otherwise \<^verbatim>\<open>coeffRef\<close> has to be used).\<close>

definition insert_coeff :: "nat \<Rightarrow> nat \<Rightarrow> real \<Rightarrow> SparseMat \<Rightarrow> error + SparseMat" where
  "insert_coeff i j v m =
     (if \<not> (i < rows m \<and> j < cols m) then Inl IndexOutOfRange
      else if coeffs m (i, j) \<noteq> None then Inl InsertExisting
      else Inr (m\<lparr>coeffs := (coeffs m)((i, j) \<mapsto> v)\<rparr>))"

text \<open>\<^verbatim>\<open>sparseView()\<close> of a 12 by 12 dense matrix: the entries that are not zero, column by
  column (the sparse matrix is column-major), each with its row and column.\<close>

definition sparseView :: "LocalMatrix \<Rightarrow> (nat \<times> nat \<times> real) list" where
  "sparseView K =
     filter (\<lambda>(r, c, v). v \<noteq> 0)
       (concat (map (\<lambda>c. map (\<lambda>r. (r, c, K (r, c))) [0..<12]) [0..<12]))"

definition topLeftCorner :: "SparseMat \<Rightarrow> nat \<Rightarrow> nat \<Rightarrow> SparseMat" where
  "topLeftCorner m p q =
     \<lparr>rows = p, cols = q,
      coeffs = (\<lambda>(r, c). if r < p \<and> c < q then coeffs m (r, c) else None)\<rparr>"

text \<open>The product of a sparse matrix with a column vector.\<close>

definition sparse_times :: "SparseMat \<Rightarrow> (nat \<Rightarrow> real) \<Rightarrow> nat \<Rightarrow> real" where
  "sparse_times K x = (\<lambda>r. \<Sum>c<cols K. coeff K (r, c) * x c)"

subsection \<open>The assembler\<close>

text \<open>The body of the two inner loops of \<^verbatim>\<open>GlobalStiffAssembler::operator()\<close> for one stored
  entry of \<^verbatim>\<open>SparseKelem\<close>. \<^verbatim>\<open>row\<close>, \<^verbatim>\<open>col\<close> and \<^verbatim>\<open>dofs_per_elem\<close> are \<^verbatim>\<open>unsigned int\<close>, so
  the index expressions are evaluated modulo \<open>2^32\<close> (also \<^verbatim>\<open>nn2 - 1\<close>, an \<^verbatim>\<open>int\<close> converted
  to \<^verbatim>\<open>unsigned\<close>), and the constructor of \<^verbatim>\<open>Triplet\<close> converts them to \<^verbatim>\<open>int\<close>.\<close>

definition scatter :: "32 word \<Rightarrow> 32 word \<Rightarrow> nat \<times> nat \<times> real \<Rightarrow> Triplet" where
  "scatter nn1 nn2 e =
     (case e of (r, c, v) \<Rightarrow>
        let row = (of_nat r :: 32 word);
            col = (of_nat c :: 32 word);
            dofs_per_elem = (6 :: 32 word)
        in
        if row < 6 then
          if col < 6 then
            (sint (dofs_per_elem * nn1 + row), sint (dofs_per_elem * nn1 + col), v)
          else
            (sint (dofs_per_elem * nn1 + row), sint (dofs_per_elem * (nn2 - 1) + col), v)
        else
          if col < 6 then
            (sint (dofs_per_elem * (nn2 - 1) + row), sint (dofs_per_elem * nn1 + col), v)
          else
            (sint (dofs_per_elem * (nn2 - 1) + row), sint (dofs_per_elem * (nn2 - 1) + col), v))"

text \<open>The loop over the elements: \<^verbatim>\<open>calcKelem\<close> updates the assembler, the sparse view of
  \<open>Kelem\<close> is taken (into the member \<^verbatim>\<open>SparseKelem\<close>, which is overwritten at each pass and
  read nowhere else), and one triplet is pushed for each of its entries.\<close>

fun assemble_elems ::
  "nat list \<Rightarrow> Job \<Rightarrow> GlobalStiffAssembler \<times> Triplet list \<Rightarrow>
   error + GlobalStiffAssembler \<times> Triplet list" where
  "assemble_elems [] job st = Inr st"
| "assemble_elems (i # is) job (s, triplets) =
     (case calcKelem i job s of
        Inl e \<Rightarrow> Inl e
      | Inr s' \<Rightarrow>
          let SparseKelem = sparseView (Kelem s');
              nn1 = fst (elems job ! i);
              nn2 = snd (elems job ! i)
          in assemble_elems is job (s', triplets @ map (scatter nn1 nn2) SparseKelem))"

text \<open>One pass of the inner loop of \<^verbatim>\<open>loadTies\<close>: four triplets for degree of freedom \<open>j\<close>.\<close>

definition tie_triplets :: "Tie \<Rightarrow> nat \<Rightarrow> Triplet list" where
  "tie_triplets tie j =
     (let dofs_per_elem = (6 :: 32 word);
          nn1 = node_number_1 tie;
          nn2 = node_number_2 tie;
          spring_constant = (if j < 3 then lmult tie else rmult tie);
          j = (of_nat j :: 32 word)
      in [(sint (dofs_per_elem * nn1 + j), sint (dofs_per_elem * nn1 + j), spring_constant),
          (sint (dofs_per_elem * nn2 + j), sint (dofs_per_elem * nn2 + j), spring_constant),
          (sint (dofs_per_elem * nn1 + j), sint (dofs_per_elem * nn2 + j), - spring_constant),
          (sint (dofs_per_elem * nn2 + j), sint (dofs_per_elem * nn1 + j), - spring_constant)])"

definition loadTies :: "Triplet list \<Rightarrow> Tie list \<Rightarrow> Triplet list" where
  "loadTies triplets ties =
     triplets @ concat (map (\<lambda>tie. concat (map (tie_triplets tie) [0..<6])) ties)"

text \<open>\<^verbatim>\<open>GlobalStiffAssembler::operator()\<close>.\<close>

definition GlobalStiffAssembler_call ::
  "GlobalStiffAssembler \<Rightarrow> SparseMat \<Rightarrow> Job \<Rightarrow> Tie list \<Rightarrow>
   error + GlobalStiffAssembler \<times> SparseMat" where
  "GlobalStiffAssembler_call s Kg job ties =
     (case assemble_elems [0..<length (elems job)] job (s, []) of
        Inl e \<Rightarrow> Inl e
      | Inr (s', triplets) \<Rightarrow>
          (case setFromTriplets (loadTies triplets ties) Kg of
             Inl e \<Rightarrow> Inl e
           | Inr Kg' \<Rightarrow> Inr (s', Kg')))"

subsection \<open>Boundary conditions and forces\<close>

text \<open>\<^verbatim>\<open>std::numeric_limits<double>::epsilon()\<close>\<close>

definition DBL_EPSILON :: real where
  "DBL_EPSILON = 1 / 2 ^ 52"

text \<open>The loop of \<^verbatim>\<open>loadBCs\<close>, at index \<open>i\<close> of the list. \<^verbatim>\<open>bc_idx\<close> and
  \<^verbatim>\<open>global_add_idx\<close> are \<^verbatim>\<open>unsigned int\<close>; \<open>i\<close> is a \<^verbatim>\<open>size_t\<close>, so that
  \<^verbatim>\<open>global_add_idx + i\<close> is a 64-bit sum, which does not wrap for a list that fits in memory.\<close>

fun loadBCs_loop ::
  "nat \<Rightarrow> 32 word \<Rightarrow> BC list \<Rightarrow> SparseMat \<times> SparseMat \<Rightarrow> error + SparseMat \<times> SparseMat" where
  "loadBCs_loop i global_add_idx [] st = Inr st"
| "loadBCs_loop i global_add_idx (bc # bcs) (Kg, force_vec) =
     (let dofs_per_elem = (6 :: 32 word);
          bc_idx = dofs_per_elem * BC.node bc + BC.dof bc
      in
      case insert_coeff (unat bc_idx) (unat global_add_idx + i) 1 Kg of
        Inl e \<Rightarrow> Inl e
      | Inr Kg1 \<Rightarrow>
      (case insert_coeff (unat global_add_idx + i) (unat bc_idx) 1 Kg1 of
        Inl e \<Rightarrow> Inl e
      | Inr Kg2 \<Rightarrow>
      (case (if \<bar>BC.val bc\<bar> > DBL_EPSILON
             then insert_coeff (unat global_add_idx + i) 0 (BC.val bc) force_vec
             else Inr force_vec) of
        Inl e \<Rightarrow> Inl e
      | Inr force_vec' \<Rightarrow> loadBCs_loop (i + 1) global_add_idx bcs (Kg2, force_vec'))))"

definition loadBCs :: "SparseMat \<Rightarrow> SparseMat \<Rightarrow> BC list \<Rightarrow> nat \<Rightarrow> error + SparseMat \<times> SparseMat" where
  "loadBCs Kg force_vec BCs num_nodes =
     (let dofs_per_elem = (6 :: 32 word);
          global_add_idx = dofs_per_elem * of_nat num_nodes
      in loadBCs_loop 0 global_add_idx BCs (Kg, force_vec))"

fun loadForces :: "SparseMat \<Rightarrow> Force list \<Rightarrow> error + SparseMat" where
  "loadForces force_vec [] = Inr force_vec"
| "loadForces force_vec (f # forces) =
     (let dofs_per_elem = (6 :: 32 word);
          idx = dofs_per_elem * Force.node f + Force.dof f
      in case insert_coeff (unat idx) 0 (Force.val f) force_vec of
           Inl e \<Rightarrow> Inl e
         | Inr force_vec' \<Rightarrow> loadForces force_vec' forces)"

subsection \<open>Equation constraints\<close>

text \<open>threed_beam_fea.h declares \<^verbatim>\<open>loadEquations\<close> and a \<^verbatim>\<open>solve\<close> with a sixth parameter,
  the equation constraints, and examples/L_bracket.cpp calls that \<^verbatim>\<open>solve\<close>; no source file
  defines either. The \<^verbatim>\<open>solve\<close> of threed_beam_fea.cpp, embedded in the next subsection,
  has five parameters. The definitions of this subsection follow section 4.2 of the
  specification.\<close>

text \<open>Modelled from the spec: the assignment \<open>K_g[i, j] = v\<close> of \<^verbatim>\<open>loadEquations\<close>, which is
  missing from the sources; a coefficient outside the matrix is the failure
  \<open>IndexOutOfRange\<close> (the specification's index out of range).\<close>

definition set_coeff :: "nat \<Rightarrow> nat \<Rightarrow> real \<Rightarrow> SparseMat \<Rightarrow> error + SparseMat" where
  "set_coeff i j v m =
     (if i < rows m \<and> j < cols m then Inr (m\<lparr>coeffs := (coeffs m)((i, j) \<mapsto> v)\<rparr>)
      else Inl IndexOutOfRange)"

text \<open>Modelled from the spec: the index \<open>6 n_k + d_k\<close> that the missing \<^verbatim>\<open>loadEquations\<close>
  gives to the term \<open>(n_k, d_k, c_k)\<close>.\<close>

definition term_index :: "Term \<Rightarrow> nat" where
  "term_index t = 6 * unat (node_number t) + unat (dof t)"

text \<open>Modelled from the spec: the missing \<^verbatim>\<open>loadEquations\<close>, for the terms of one equation
  with row \<open>r\<close>: every term sets \<open>K_g[r, 6 n_k + d_k] = K_g[6 n_k + d_k, r] = c_k\<close>.\<close>

fun loadEquation_terms :: "nat \<Rightarrow> Term list \<Rightarrow> SparseMat \<Rightarrow> error + SparseMat" where
  "loadEquation_terms r [] Kg = Inr Kg"
| "loadEquation_terms r (t # ts) Kg =
     (case set_coeff r (term_index t) (coefficient t) Kg of
        Inl e \<Rightarrow> Inl e
      | Inr Kg1 \<Rightarrow>
      (case set_coeff (term_index t) r (coefficient t) Kg1 of
        Inl e \<Rightarrow> Inl e
      | Inr Kg2 \<Rightarrow> loadEquation_terms r ts Kg2))"

text \<open>Modelled from the spec: the missing \<^verbatim>\<open>loadEquations\<close>, for the equations from the one
  with row \<open>r\<close> on: equation \<open>e\<close> has the row after that of equation \<open>e - 1\<close>.\<close>

fun loadEquations_loop :: "nat \<Rightarrow> Equation list \<Rightarrow> SparseMat \<Rightarrow> error + SparseMat" where
  "loadEquations_loop r [] Kg = Inr Kg"
| "loadEquations_loop r (eqn # eqns) Kg =
     (case loadEquation_terms r (terms eqn) Kg of
        Inl e \<Rightarrow> Inl e
      | Inr Kg1 \<Rightarrow> loadEquations_loop (r + 1) eqns Kg1)"

text \<open>Modelled from the spec: \<^verbatim>\<open>loadEquations(Kg, equations, num_nodes, num_bcs)\<close>, declared in
  threed_beam_fea.h and missing from the sources. Equation \<open>e\<close> has row
  \<open>r = M + |BCs| + e\<close> with \<open>M = 6 |nodes|\<close>.\<close>

definition loadEquations :: "SparseMat \<Rightarrow> Equation list \<Rightarrow> nat \<Rightarrow> nat \<Rightarrow> error + SparseMat" where
  "loadEquations Kg equations num_nodes num_bcs =
     loadEquations_loop (6 * num_nodes + num_bcs) equations Kg"

text \<open>Modelled from the spec: the six-parameter \<^verbatim>\<open>solve\<close> of threed_beam_fea.h, missing from
  the sources, up to the compression of the matrix: a square matrix and a right-hand side
  of order \<open>N = 6 |nodes| + |BCs| + |equations|\<close>, the elements and the ties, the boundary
  conditions, the equation constraints, the forces. The assembler, \<^verbatim>\<open>loadBCs\<close> and
  \<^verbatim>\<open>loadForces\<close> are those of threed_beam_fea.cpp.\<close>

definition build_system_equations ::
  "Job \<Rightarrow> BC list \<Rightarrow> Force list \<Rightarrow> Tie list \<Rightarrow> Equation list \<Rightarrow> error + SparseMat \<times> SparseMat" where
  "build_system_equations job BCs forces ties equations =
     (let size = 6 * length (nodes job) + length BCs + length equations;
          Kg = SparseMat_new size size;
          force_vec = SparseMat_new size 1
      in
      case GlobalStiffAssembler_call GlobalStiffAssembler_new Kg job ties of
        Inl e \<Rightarrow> Inl e
      | Inr (assembleK3D, Kg) \<Rightarrow>
      (case loadBCs Kg force_vec BCs (length (nodes job)) of
        Inl e \<Rightarrow> Inl e
      | Inr (Kg, force_vec) \<Rightarrow>
      (case loadEquations Kg equations (length (nodes job)) (length BCs) of
        Inl e \<Rightarrow> Inl e
      | Inr Kg \<Rightarrow>
      (case (if length forces > 0 then loadForces force_vec forces else Inr force_vec) of
        Inl e \<Rightarrow> Inl e
      | Inr force_vec \<Rightarrow> Inr (Kg, force_vec)))))"

subsection \<open>The solve entry point\<close>

definition computeTieForces :: "Tie list \<Rightarrow> real list list \<Rightarrow> error + real list list" where
  "computeTieForces ties nodal_displacements =
     (if \<forall>tie\<in>set ties. \<forall>nn\<in>{node_number_1 tie, node_number_2 tie}.
           unat nn < length nodal_displacements \<and> 6 \<le> length (nodal_displacements ! unat nn)
      then Inr (map (\<lambda>tie. map (\<lambda>j.
              let spring_constant = (if j < 3 then lmult tie else rmult tie);
                  delta1 = nodal_displacements ! unat (node_number_1 tie) ! j;
                  delta2 = nodal_displacements ! unat (node_number_2 tie) ! j
              in spring_constant * (delta2 - delta1)) [0..<6]) ties)
      else Inl IndexOutOfRange)"

record Options =
  epsilon :: real
  save_nodal_displacements :: bool
  save_nodal_forces :: bool
  save_tie_forces :: bool
  verbose :: bool
  save_report :: bool
  nodal_displacements_filename :: string
  nodal_forces_filename :: string
  tie_forces_filename :: string
  report_filename :: string

text \<open>The counts and the result matrices of \<^verbatim>\<open>Summary\<close>; the timings are not modelled.\<close>

record Summary =
  num_nodes :: nat
  num_elems :: nat
  num_bcs :: nat
  num_forces :: nat
  num_ties :: nat
  num_eqns :: nat
  nodal_displacements :: "real list list"
  nodal_forces :: "real list list"
  tie_forces :: "real list list"

text \<open>The size that \<^verbatim>\<open>solve\<close> computes: a \<^verbatim>\<open>size_t\<close> sum stored in an \<^verbatim>\<open>int\<close>.\<close>

definition system_size :: "Job \<Rightarrow> BC list \<Rightarrow> int" where
  "system_size job BCs = sint (of_nat (6 * length (nodes job) + length BCs) :: 32 word)"

text \<open>\<^verbatim>\<open>solve\<close> up to \<^verbatim>\<open>makeCompressed\<close>: the global stiffness matrix and the force vector
  that are handed to the solver.\<close>

definition build_system ::
  "Job \<Rightarrow> BC list \<Rightarrow> Force list \<Rightarrow> Tie list \<Rightarrow> error + SparseMat \<times> SparseMat" where
  "build_system job BCs forces ties =
     (let size = system_size job BCs in
      if size < 0 then Inl NegativeSize
      else
        let Kg = SparseMat_new (nat size) (nat size);
            force_vec = SparseMat_new (nat size) 1
        in
        case GlobalStiffAssembler_call GlobalStiffAssembler_new Kg job ties of
          Inl e \<Rightarrow> Inl e
        | Inr (assembleK3D, Kg) \<Rightarrow>
        (case loadBCs Kg force_vec BCs (length (nodes job)) of
          Inl e \<Rightarrow> Inl e
        | Inr (Kg, force_vec) \<Rightarrow>
        (case (if length forces > 0 then loadForces force_vec forces else Inr force_vec) of
          Inl e \<Rightarrow> Inl e
        | Inr force_vec \<Rightarrow> Inr (Kg, force_vec))))"

text \<open>The rounding of the results: values of magnitude below \<open>epsilon\<close> become zero.\<close>

definition round_eps :: "real \<Rightarrow> real \<Rightarrow> real" where
  "round_eps eps x = (if \<bar>x\<bar> < eps then 0 else x)"

text \<open>The files that the options ask for, in the order of the source: the first that cannot
  be opened raises. \<^verbatim>\<open>FullReport\<close>, evaluated for \<^verbatim>\<open>save_report\<close> and for \<^verbatim>\<open>verbose\<close>,
  reads row 0 of the result matrices.\<close>

definition save_files :: "(string \<Rightarrow> bool) \<Rightarrow> Options \<Rightarrow> Summary \<Rightarrow> error option" where
  "save_files can_open options summary =
     (if save_nodal_displacements options \<and> \<not> can_open (nodal_displacements_filename options)
      then Some (FileError (nodal_displacements_filename options))
      else if save_nodal_forces options \<and> \<not> can_open (nodal_forces_filename options)
      then Some (FileError (nodal_forces_filename options))
      else if save_tie_forces options \<and> \<not> can_open (tie_forces_filename options)
      then Some (FileError (tie_forces_filename options))
      else if (save_report options \<or> verbose options) \<and> nodal_displacements summary = []
      then Some IndexOutOfRange
      else if save_report options \<and> \<not> can_open (report_filename options)
      then Some (FileError (report_filename options))
      else None)"

text \<open>\<^verbatim>\<open>solve\<close>. The sparse LU solver of Eigen is a parameter: \<open>solver Kg f\<close> is the dense
  solution vector, when there is one. \<open>can_open\<close> tells which files can be opened for
  writing. Eigen asserts that the block taken by \<^verbatim>\<open>topLeftCorner\<close> and the entries read
  from the solution lie inside the matrix and the vector.\<close>

definition solve ::
  "(SparseMat \<Rightarrow> SparseMat \<Rightarrow> (nat \<Rightarrow> real) option) \<Rightarrow> (string \<Rightarrow> bool) \<Rightarrow>
   Job \<Rightarrow> BC list \<Rightarrow> Force list \<Rightarrow> Tie list \<Rightarrow> Options \<Rightarrow> error + Summary" where
  "solve solver can_open job BCs forces ties options =
     (case build_system job BCs forces ties of
        Inl e \<Rightarrow> Inl e
      | Inr (Kg, force_vec) \<Rightarrow>
      (case solver Kg force_vec of
        None \<Rightarrow> Inl SolverFailed
      | Some disp \<Rightarrow>
          let dofs_per_elem = 6;
              n = length (nodes job)
          in
          if \<not> (dofs_per_elem * n \<le> rows Kg \<and> dofs_per_elem * n \<le> cols Kg)
          then Inl IndexOutOfRange
          else
          let disp_vec = map (\<lambda>i. map (\<lambda>j. round_eps (epsilon options) (disp (dofs_per_elem * i + j)))
                                      [0..<dofs_per_elem]) [0..<n];
              Kg = topLeftCorner Kg (dofs_per_elem * n) (dofs_per_elem * n);
              nodal_forces_dense = sparse_times Kg disp;
              nodal_forces_vec =
                map (\<lambda>i. map (\<lambda>j. round_eps (epsilon options) (nodal_forces_dense (dofs_per_elem * i + j)))
                              [0..<dofs_per_elem]) [0..<n]
          in
          (case (if length ties > 0 then computeTieForces ties disp_vec else Inr []) of
            Inl e \<Rightarrow> Inl e
          | Inr tie_forces_vec \<Rightarrow>
              let summary = \<lparr>num_nodes = length (nodes job), num_elems = length (elems job),
                             num_bcs = length BCs, num_forces = 0, num_ties = length ties,
                             num_eqns = 0, nodal_displacements = disp_vec,
                             nodal_forces = nodal_forces_vec, tie_forces = tie_forces_vec\<rparr>
              in (case save_files can_open options summary of
                    Some e \<Rightarrow> Inl e
                  | None \<Rightarrow> Inr summary))))"

subsection \<open>The matrices and the scatter policy that the specification describes\<close>

text \<open>The local stiffness matrix in the words of the specification (section 4.1), from
  \<open>a = EA/L\<close>, \<open>t = GJ/L\<close>, \<open>z3 = 12 EIz/L^3\<close>, \<open>z2 = 6 EIz/L^2\<close>, \<open>z1 = EIz/L\<close> and the
  same for \<open>y\<close>. It is compared with the matrix that \<^verbatim>\<open>calcKelem\<close> writes.\<close>

definition beam_stiffness :: "real \<Rightarrow> real \<Rightarrow> real \<Rightarrow> real \<Rightarrow> real \<Rightarrow> real \<Rightarrow> real \<Rightarrow> real \<Rightarrow> LocalMatrix" where
  "beam_stiffness a t z3 z2 z1 y3 y2 y1 = (\<lambda>rc.
     if rc \<in> {(0, 0), (6, 6)} then a
     else if rc \<in> {(0, 6), (6, 0)} then - a
     else if rc \<in> {(3, 3), (9, 9)} then t
     else if rc \<in> {(3, 9), (9, 3)} then - t
     else if rc \<in> {(1, 1), (7, 7)} then z3
     else if rc \<in> {(1, 7), (7, 1)} then - z3
     else if rc \<in> {(1, 5), (5, 1), (1, 11), (11, 1)} then z2
     else if rc \<in> {(5, 7), (7, 5), (7, 11), (11, 7)} then - z2
     else if rc \<in> {(5, 5), (11, 11)} then 4 * z1
     else if rc \<in> {(5, 11), (11, 5)} then 2 * z1
     else if rc \<in> {(2, 2), (8, 8)} then y3
     else if rc \<in> {(2, 8), (8, 2)} then - y3
     else if rc \<in> {(2, 4), (4, 2), (2, 10), (10, 2)} then - y2
     else if rc \<in> {(4, 8), (8, 4), (8, 10), (10, 8)} then y2
     else if rc \<in> {(4, 4), (10, 10)} then 4 * y1
     else if rc \<in> {(4, 10), (10, 4)} then 2 * y1
     else 0)"

fun dot :: "Vector3d \<Rightarrow> Vector3d \<Rightarrow> real" where
  "dot (a0, a1, a2) (b0, b1, b2) = a0 * b0 + a1 * b1 + a2 * b2"

text \<open>The rotation matrix in the words of the specification: block-diagonal, four identical
  3 by 3 blocks whose rows are \<open>nx\<close>, \<open>ny\<close> and \<open>nz\<close>.\<close>

definition rotation_matrix :: "Vector3d \<Rightarrow> Vector3d \<Rightarrow> Vector3d \<Rightarrow> LocalMatrix" where
  "rotation_matrix nx ny nz = (\<lambda>(i, j).
     if i < 12 \<and> j < 12 \<and> i div 3 = j div 3 then at3 ([nx, ny, nz] ! (i mod 3)) (j mod 3) else 0)"

text \<open>The scatter policy in the words of the specification: rows and columns 0..5 of
  the element matrix go to 6 n1 .. 6 n1 + 5, rows and columns 6..11 to 6 n2 .. 6 n2 + 5.\<close>

definition global_dof :: "nat \<Rightarrow> nat \<Rightarrow> nat \<Rightarrow> nat" where
  "global_dof n1 n2 r = (if r < 6 then 6 * n1 + r else 6 * n2 + (r - 6))"

subsection \<open>Notions used in the statements\<close>

text \<open>The positions that \<^verbatim>\<open>calcKelem\<close> writes in \<open>Klocal\<close> and those that \<^verbatim>\<open>calcAelem\<close>
  writes in \<open>Aelem\<close> (and, transposed, in \<open>AelemT\<close>), in source order.\<close>

definition Klocal_pattern :: "(nat \<times> nat) list" where
  "Klocal_pattern =
     [(0, 0), (0, 6), (1, 1), (1, 5), (1, 7), (1, 11), (2, 2), (2, 4), (2, 8), (2, 10),
      (3, 3), (3, 9), (4, 2), (4, 4), (4, 8), (4, 10), (5, 1), (5, 5), (5, 7), (5, 11),
      (6, 0), (6, 6), (7, 1), (7, 5), (7, 7), (7, 11), (8, 2), (8, 4), (8, 8), (8, 10),
      (9, 3), (9, 9), (10, 2), (10, 4), (10, 8), (10, 10), (11, 1), (11, 5), (11, 7), (11, 11)]"

definition Aelem_pattern :: "(nat \<times> nat) list" where
  "Aelem_pattern =
     [(0, 0), (0, 1), (0, 2), (1, 0), (1, 1), (1, 2), (2, 0), (2, 1), (2, 2),
      (3, 3), (3, 4), (3, 5), (4, 3), (4, 4), (4, 5), (5, 3), (5, 4), (5, 5),
      (6, 6), (6, 7), (6, 8), (7, 6), (7, 7), (7, 8), (8, 6), (8, 7), (8, 8),
      (9, 9), (9, 10), (9, 11), (10, 9), (10, 10), (10, 11), (11, 9), (11, 10), (11, 11)]"

text \<open>The entries of the member matrices that no method writes are zero: true of a
  constructed assembler, and kept by \<^verbatim>\<open>calcKelem\<close>.\<close>

definition asm_inv :: "GlobalStiffAssembler \<Rightarrow> bool" where
  "asm_inv s \<longleftrightarrow>
     (\<forall>rc. rc \<notin> set Klocal_pattern \<longrightarrow> Klocal s rc = 0) \<and>
     (\<forall>rc. rc \<notin> set Aelem_pattern \<longrightarrow> Aelem s rc = 0) \<and>
     (\<forall>rc. rc \<notin> set Aelem_pattern \<longrightarrow> AelemT s rc = 0)"

text \<open>The length that \<^verbatim>\<open>calcKelem\<close> computes for element \<open>i\<close>, and the node numbers of the
  element as natural numbers.\<close>

definition elem_length :: "Job \<Rightarrow> nat \<Rightarrow> real" where
  "elem_length job i =
     norm_nodes (nodes job ! nat (sint (fst (elems job ! i))))
                (nodes job ! nat (sint (snd (elems job ! i))))"

definition elem_node1 :: "Job \<Rightarrow> nat \<Rightarrow> nat" where
  "elem_node1 job i = nat (sint (fst (elems job ! i)))"

definition elem_node2 :: "Job \<Rightarrow> nat \<Rightarrow> nat" where
  "elem_node2 job i = nat (sint (snd (elems job ! i)))"

text \<open>Element \<open>i\<close> respects the data model: it has properties, its two node numbers
  address nodes of the job, and its axis and its reference normal have a nonzero cross
  product (so the endpoints are distinct, the normal is not zero and not parallel to the
  axis, and \<^verbatim>\<open>calcKelem\<close> divides by nothing that is zero).\<close>

definition valid_elem :: "Job \<Rightarrow> nat \<Rightarrow> bool" where
  "valid_elem job i \<longleftrightarrow>
     i < length (props job) \<and> i < length (elems job) \<and>
     in_range (fst (elems job ! i)) (nodes job) \<and> in_range (snd (elems job ! i)) (nodes job) \<and>
     cross (vminus (nodes job ! nat (sint (snd (elems job ! i))))
                   (nodes job ! nat (sint (fst (elems job ! i)))))
           (normal_vec (props job ! i)) \<noteq> (0, 0, 0)"

text \<open>The rotated 12 by 12 matrix \<open>Kelem\<close> that \<^verbatim>\<open>calcKelem\<close> produces for element \<open>i\<close>.\<close>

definition element_matrix :: "Job \<Rightarrow> nat \<Rightarrow> LocalMatrix" where
  "element_matrix job i =
     (case calcKelem i job GlobalStiffAssembler_new of Inr s \<Rightarrow> Kelem s | Inl e \<Rightarrow> (\<lambda>rc. 0))"

text \<open>Closed forms of \<open>Klocal\<close> and \<open>Aelem\<close> after \<^verbatim>\<open>calcKelem\<close>, used in the proofs.\<close>

definition elem_Klocal :: "Job \<Rightarrow> nat \<Rightarrow> LocalMatrix" where
  "elem_Klocal job i =
     (let p = props job ! i; len = elem_length job i
      in beam_stiffness (EA p / len) (GJ p / len)
           (12 * EIz p / (len * len * len)) (6 * EIz p / (len * len)) (EIz p / len)
           (12 * EIy p / (len * len * len)) (6 * EIy p / (len * len)) (EIy p / len))"

definition elem_Aelem :: "Job \<Rightarrow> nat \<Rightarrow> LocalMatrix" where
  "elem_Aelem job i =
     (let nx = normalized (vminus (nodes job ! nat (sint (snd (elems job ! i))))
                                  (nodes job ! nat (sint (fst (elems job ! i)))));
          ny = normalized (normal_vec (props job ! i))
      in rotation_matrix nx ny (vdiv (cross nx ny) (squaredNorm (cross nx ny))))"

text \<open>The sum of the values of the triplets of a list that land on a coordinate, and the
  part of it that one element contributes under the scatter policy.\<close>

definition triplet_sum :: "Triplet list \<Rightarrow> nat \<times> nat \<Rightarrow> real" where
  "triplet_sum ts rc = (\<Sum>t\<leftarrow>ts. case t of (i, j, v) \<Rightarrow> if (nat i, nat j) = rc then v else 0)"

definition elem_contribution :: "nat \<Rightarrow> nat \<Rightarrow> LocalMatrix \<Rightarrow> nat \<times> nat \<Rightarrow> real" where
  "elem_contribution n1 n2 K RC =
     (\<Sum>r<12. \<Sum>c<12. if (global_dof n1 n2 r, global_dof n1 n2 c) = RC then K (r, c) else 0)"

text \<open>The triplets pushed for element \<open>i\<close>, and triplets inside the leading \<open>b\<close> by \<open>b\<close>
  block.\<close>

definition elem_triplets :: "Job \<Rightarrow> nat \<Rightarrow> Triplet list" where
  "elem_triplets job i =
     map (scatter (fst (elems job ! i)) (snd (elems job ! i))) (sparseView (element_matrix job i))"

definition triplet_below :: "nat \<Rightarrow> Triplet \<Rightarrow> bool" where
  "triplet_below b t = (case t of (i, j, v) \<Rightarrow> 0 \<le> i \<and> i < int b \<and> 0 \<le> j \<and> j < int b)"

text \<open>\<^verbatim>\<open>bc_idx\<close> of \<^verbatim>\<open>loadBCs\<close>, the right-hand side entry that \<^verbatim>\<open>loadBCs\<close> leaves for a
  boundary condition, and \<^verbatim>\<open>idx\<close> of \<^verbatim>\<open>loadForces\<close>.\<close>

definition bc_index :: "BC \<Rightarrow> nat" where
  "bc_index bc = unat (6 * BC.node bc + BC.dof bc)"

definition bc_rhs :: "BC \<Rightarrow> real" where
  "bc_rhs bc = (if \<bar>BC.val bc\<bar> > DBL_EPSILON then BC.val bc else 0)"

definition force_index :: "Force \<Rightarrow> nat" where
  "force_index f = unat (6 * Force.node f + Force.dof f)"

text \<open>Inputs that respect the data model: the elements do, every index addresses a node
  or one of the six degrees of freedom, no two forces address the same degree of freedom,
  and the order of the system fits an \<^verbatim>\<open>int\<close>.\<close>

definition valid_input :: "Job \<Rightarrow> BC list \<Rightarrow> Force list \<Rightarrow> Tie list \<Rightarrow> bool" where
  "valid_input job BCs forces ties \<longleftrightarrow>
     (\<forall>i<length (elems job). valid_elem job i) \<and>
     (\<forall>tie\<in>set ties. unat (node_number_1 tie) < length (nodes job) \<and>
                      unat (node_number_2 tie) < length (nodes job)) \<and>
     (\<forall>bc\<in>set BCs. unat (BC.node bc) < length (nodes job) \<and> unat (BC.dof bc) < 6) \<and>
     (\<forall>f\<in>set forces. unat (Force.node f) < length (nodes job) \<and> unat (Force.dof f) < 6) \<and>
     distinct (map force_index forces) \<and>
     6 * length (nodes job) + length BCs < 2 ^ 31"


text \<open>Every file that the options ask for can be opened, and the report, when asked for,
  has a first row to read.\<close>

definition outputs_ok :: "(string \<Rightarrow> bool) \<Rightarrow> Options \<Rightarrow> Job \<Rightarrow> bool" where
  "outputs_ok can_open options job \<longleftrightarrow>
     (save_nodal_displacements options \<longrightarrow> can_open (nodal_displacements_filename options)) \<and>
     (save_nodal_forces options \<longrightarrow> can_open (nodal_forces_filename options)) \<and>
     (save_tie_forces options \<longrightarrow> can_open (tie_forces_filename options)) \<and>
     (save_report options \<longrightarrow> can_open (report_filename options)) \<and>
     (save_report options \<or> verbose options \<longrightarrow> nodes job \<noteq> [])"

subsection \<open>Inputs of the test suite and of the counterexamples\<close>

text \<open>\<^verbatim>\<open>JOB_CANTILEVER\<close> of beam_element_tests.cpp; an element of length 3 with four
  different stiffnesses; the cantilever with a reference normal that is neither
  perpendicular nor parallel to the axis, and with one along the axis; the job and the tie
  of the test \<^verbatim>\<open>CorrectForcesWeakTies\<close>.\<close>

definition JOB_CANTILEVER :: Job where
  "JOB_CANTILEVER =
     \<lparr>nodes = [(0, 0, 0), (1, 0, 0)],
      elems = [(0, 1)],
      props = [\<lparr>EA = 1, EIz = 1, EIy = 1, GJ = 1, normal_vec = (0, 0, 1)\<rparr>]\<rparr>"

definition JOB_INCLINED :: Job where
  "JOB_INCLINED =
     \<lparr>nodes = [(1, 2, 3), (3, 4, 4)],
      elems = [(0, 1)],
      props = [\<lparr>EA = 2, EIz = 3, EIy = 5, GJ = 7, normal_vec = (0, 0, 1)\<rparr>]\<rparr>"

definition JOB_SKEW_NORMAL :: Job where
  "JOB_SKEW_NORMAL =
     \<lparr>nodes = [(0, 0, 0), (1, 0, 0)],
      elems = [(0, 1)],
      props = [\<lparr>EA = 1, EIz = 1, EIy = 1, GJ = 1, normal_vec = (3, 4, 0)\<rparr>]\<rparr>"

definition JOB_PARALLEL_NORMAL :: Job where
  "JOB_PARALLEL_NORMAL =
     \<lparr>nodes = [(0, 0, 0), (1, 0, 0)],
      elems = [(0, 1)],
      props = [\<lparr>EA = 1, EIz = 1, EIy = 1, GJ = 1, normal_vec = (1, 0, 0)\<rparr>]\<rparr>"

definition JOB_WEAK_TIES :: Job where
  "JOB_WEAK_TIES =
     \<lparr>nodes = [(0, 0, 0), (1, 0, 0), (1, 0, 0), (2, 0, 0)],
      elems = [(0, 1), (2, 3)],
      props = [\<lparr>EA = 1000000000, EIz = 1000000000, EIy = 1000000000, GJ = 1000000000,
                 normal_vec = (0, 1, 0)\<rparr>,
               \<lparr>EA = 1000000000, EIz = 1000000000, EIy = 1000000000, GJ = 1000000000,
                 normal_vec = (0, 1, 0)\<rparr>]\<rparr>"

definition TIES_WEAK :: "Tie list" where
  "TIES_WEAK = [\<lparr>node_number_1 = 1, node_number_2 = 2, lmult = 1 / 100, rmult = 1 / 100\<rparr>]"




text \<open>The test \<^verbatim>\<open>CorrectTipForcesCantileverBeam\<close>: node 0 clamped and two prescribed
  displacements of 0.1 at node 1; \<^verbatim>\<open>Options()\<close> and the options of the test; the solution
  of its system (the displacements, then the eight multipliers), in which the solver has
  left \<open>10^-16\<close> in a free degree of freedom.\<close>

definition BCS_TIP_FORCES :: "BC list" where
  "BCS_TIP_FORCES =
     [\<lparr>BC.node = 0, BC.dof = 0, BC.val = 0\<rparr>, \<lparr>BC.node = 0, BC.dof = 1, BC.val = 0\<rparr>, \<lparr>BC.node = 0, BC.dof = 2, BC.val = 0\<rparr>,
      \<lparr>BC.node = 0, BC.dof = 3, BC.val = 0\<rparr>, \<lparr>BC.node = 0, BC.dof = 4, BC.val = 0\<rparr>, \<lparr>BC.node = 0, BC.dof = 5, BC.val = 0\<rparr>,
      \<lparr>BC.node = 1, BC.dof = 0, BC.val = 1 / 10\<rparr>, \<lparr>BC.node = 1, BC.dof = 1, BC.val = 1 / 10\<rparr>]"

definition Options_default :: Options where
  "Options_default =
     \<lparr>epsilon = 1 / 10 ^ 14,
      save_nodal_displacements = False, save_nodal_forces = False, save_tie_forces = False,
      verbose = False, save_report = False,
      nodal_displacements_filename = ''nodal_displacements.csv'',
      nodal_forces_filename = ''nodal_forces.csv'',
      tie_forces_filename = ''tie_forces.csv'',
      report_filename = ''report.txt''\<rparr>"

definition OPTIONS_TIP_FORCES :: Options where
  "OPTIONS_TIP_FORCES =
     Options_default\<lparr>save_nodal_displacements := True, save_nodal_forces := True,
                      save_report := True\<rparr>"

definition SOLUTION_TIP_FORCES :: "nat \<Rightarrow> real" where
  "SOLUTION_TIP_FORCES k =
     (if k = 6 then 1 / 10 else if k = 7 then 1 / 10 else if k = 8 then 1 / 10 ^ 16
      else if k = 11 then 3 / 20 else if k = 12 then 1 / 10 else if k = 13 then 3 / 10
      else if k = 17 then 3 / 10 else if k = 18 then - 1 / 10 else if k = 19 then - 3 / 10
      else 0)"

text \<open>A boundary condition that prescribes \<open>2^-53\<close>, half the machine epsilon; two forces
  on the same degree of freedom; a 20 by 20 matrix with one stored coefficient, in the
  leading block.\<close>

definition BC_TINY :: BC where
  "BC_TINY = \<lparr>BC.node = 0, BC.dof = 0, BC.val = 1 / 2 ^ 53\<rparr>"

definition FORCES_DUPLICATE :: "Force list" where
  "FORCES_DUPLICATE =
     [\<lparr>Force.node = 1, Force.dof = 1, Force.val = 1 / 10\<rparr>,
      \<lparr>Force.node = 1, Force.dof = 1, Force.val = 1 / 5\<rparr>]"

definition KG_ONE_ENTRY :: SparseMat where
  "KG_ONE_ENTRY = \<lparr>rows = 20, cols = 20, coeffs = [(0, 0) \<mapsto> 5]\<rparr>"

section \<open>Properties of the element kernel\<close>

lemma Klocal_calcAelem: "Klocal (calcAelem nx ny s) = Klocal s"
  by (simp add: calcAelem_def Let_def)

lemma Klocal_updates:
  assumes "\<forall>rc. rc \<notin> set Klocal_pattern \<longrightarrow> K rc = 0"
  shows "K
                ((0, 0) := tmpEA, (0, 6) := - tmpEA, (1, 1) := tmp12z,
                 (1, 5) := tmp6z, (1, 7) := - tmp12z, (1, 11) := tmp6z,
                 (2, 2) := tmp12y, (2, 4) := - tmp6y, (2, 8) := - tmp12y,
                 (2, 10) := - tmp6y, (3, 3) := tmpGJ, (3, 9) := - tmpGJ,
                 (4, 2) := - tmp6y, (4, 4) := 4 * tmp1y, (4, 8) := tmp6y,
                 (4, 10) := 2 * tmp1y, (5, 1) := tmp6z, (5, 5) := 4 * tmp1z,
                 (5, 7) := - tmp6z, (5, 11) := 2 * tmp1z, (6, 0) := - tmpEA,
                 (6, 6) := tmpEA, (7, 1) := - tmp12z, (7, 5) := - tmp6z,
                 (7, 7) := tmp12z, (7, 11) := - tmp6z, (8, 2) := - tmp12y,
                 (8, 4) := tmp6y, (8, 8) := tmp12y, (8, 10) := tmp6y,
                 (9, 3) := - tmpGJ, (9, 9) := tmpGJ, (10, 2) := - tmp6y,
                 (10, 4) := 2 * tmp1y, (10, 8) := tmp6y, (10, 10) := 4 * tmp1y,
                 (11, 1) := tmp6z, (11, 5) := 2 * tmp1z, (11, 7) := - tmp6z,
                 (11, 11) := 4 * tmp1z) = beam_stiffness tmpEA tmpGJ tmp12z tmp6z tmp1z tmp12y tmp6y tmp1y"
    (is "?L = ?R")
proof (rule ext)
  fix rc :: "nat \<times> nat"
  show "?L rc = ?R rc"
  proof (cases "rc \<in> set Klocal_pattern")
    case True
    have "\<forall>rc\<in>set Klocal_pattern. ?L rc = ?R rc"
      unfolding Klocal_pattern_def beam_stiffness_def by simp
    with True show ?thesis by blast
  next
    case False
    with assms have "K rc = 0" by blast
    with False show ?thesis
      unfolding Klocal_pattern_def beam_stiffness_def by simp
  qed
qed

lemma beam_stiffness_outside:
  "rc \<notin> set Klocal_pattern \<Longrightarrow> beam_stiffness a t z3 z2 z1 y3 y2 y1 rc = 0"
  unfolding Klocal_pattern_def beam_stiffness_def by simp

lemma Klocal_pattern_sym: "\<forall>rc\<in>set Klocal_pattern. (snd rc, fst rc) \<in> set Klocal_pattern"
  unfolding Klocal_pattern_def by simp

lemma beam_stiffness_sym_pattern:
  "\<forall>rc\<in>set Klocal_pattern.
     beam_stiffness a t z3 z2 z1 y3 y2 y1 rc = beam_stiffness a t z3 z2 z1 y3 y2 y1 (snd rc, fst rc)"
  unfolding Klocal_pattern_def beam_stiffness_def by simp

lemma beam_stiffness_sym:
  "beam_stiffness a t z3 z2 z1 y3 y2 y1 (r, c) = beam_stiffness a t z3 z2 z1 y3 y2 y1 (c, r)"
proof (cases "(r, c) \<in> set Klocal_pattern")
  case True
  with beam_stiffness_sym_pattern [of a t z3 z2 z1 y3 y2 y1] show ?thesis by fastforce
next
  case False
  with Klocal_pattern_sym have "(c, r) \<notin> set Klocal_pattern" by fastforce
  with False show ?thesis by (simp add: beam_stiffness_outside)
qed

lemma squaredNorm_pos: "p1 \<noteq> p2 \<Longrightarrow> 0 < squaredNorm (vminus p2 p1)"
proof -
  assume ne: "p1 \<noteq> p2"
  obtain a0 a1 a2 where p1: "p1 = (a0, a1, a2)" by (cases p1) auto
  obtain b0 b1 b2 where p2: "p2 = (b0, b1, b2)" by (cases p2) auto
  from ne p1 p2 have "b0 - a0 \<noteq> 0 \<or> b1 - a1 \<noteq> 0 \<or> b2 - a2 \<noteq> 0" by auto
  then have "0 < (b0 - a0) * (b0 - a0) + (b1 - a1) * (b1 - a1) + (b2 - a2) * (b2 - a2)"
    by (metis add_pos_nonneg add_nonneg_pos zero_le_square not_real_square_gt_zero add_nonneg_nonneg)
  then show ?thesis by (simp add: p1 p2)
qed

lemma norm_nodes_pos: "p1 \<noteq> p2 \<Longrightarrow> 0 < norm_nodes p1 p2"
  by (simp add: norm_nodes_def vnorm_def squaredNorm_pos)

lemma sqrt_9: "sqrt 9 = 3"
  by (rule real_sqrt_unique) simp_all

text \<open>
  Claim C1. For an element \<open>i\<close> whose endpoint nodes \<open>(x1, y1, z1)\<close> and \<open>(x2, y2, z2)\<close> are
  distinct, \<^verbatim>\<open>calcKelem\<close> returns, the length
  \<open>L = sqrt ((x2 - x1)^2 + (y2 - y1)^2 + (z2 - z1)^2)\<close> is positive, and the local stiffness
  matrix left in \<open>Klocal\<close> is the spatial Euler-Bernoulli matrix of the specification
  built from \<open>EA/L\<close>, \<open>GJ/L\<close>, \<open>12 EIz/L^3\<close>, \<open>6 EIz/L^2\<close>, \<open>EIz/L\<close>, \<open>12 EIy/L^3\<close>, \<open>6 EIy/L^2\<close>
  and \<open>EIy/L\<close>: the forty listed entries, zero everywhere else, and symmetric. The entries
  that \<^verbatim>\<open>calcKelem\<close> never writes are zero because the constructor zeroed them, which is
  the hypothesis on the assembler state.
\<close>

theorem calcKelem_local_stiffness:
  assumes "i < length (elems job)" and "i < length (props job)"
    and "in_range (fst (elems job ! i)) (nodes job)"
    and "in_range (snd (elems job ! i)) (nodes job)"
    and "nodes job ! nat (sint (fst (elems job ! i))) = (x1, y1, z1)"
    and "nodes job ! nat (sint (snd (elems job ! i))) = (x2, y2, z2)"
    and "(x1, y1, z1) \<noteq> (x2, y2, z2)"
    and "\<forall>rc. rc \<notin> set Klocal_pattern \<longrightarrow> Klocal s rc = 0"
  shows "\<exists>s'. calcKelem i job s = Inr s' \<and>
     (let p = props job ! i; L = sqrt ((x2 - x1) ^ 2 + (y2 - y1) ^ 2 + (z2 - z1) ^ 2) in
        0 < L \<and>
        Klocal s' = beam_stiffness (EA p / L) (GJ p / L)
                      (12 * EIz p / L ^ 3) (6 * EIz p / L ^ 2) (EIz p / L)
                      (12 * EIy p / L ^ 3) (6 * EIy p / L ^ 2) (EIy p / L) \<and>
        (\<forall>r c. Klocal s' (r, c) = Klocal s' (c, r)))"
proof -
  let ?p = "props job ! i" and ?L = "elem_length job i"
  let ?B = "beam_stiffness (EA ?p / ?L) (GJ ?p / ?L)
              (12 * EIz ?p / (?L * ?L * ?L)) (6 * EIz ?p / (?L * ?L)) (EIz ?p / ?L)
              (12 * EIy ?p / (?L * ?L * ?L)) (6 * EIy ?p / (?L * ?L)) (EIy ?p / ?L)"
  from assms(1-4) have "\<exists>s'. calcKelem i job s = Inr s' \<and> Klocal s' = ?B"
    by (simp add: calcKelem_def Let_def Klocal_calcAelem Klocal_updates [OF assms(8)]
        elem_length_def del: One_nat_def)
  then obtain s' where run: "calcKelem i job s = Inr s'" and K: "Klocal s' = ?B"
    by blast
  have len: "?L = sqrt ((x2 - x1) ^ 2 + (y2 - y1) ^ 2 + (z2 - z1) ^ 2)"
    by (simp add: elem_length_def norm_nodes_def vnorm_def assms(5,6) power2_eq_square)
  from assms(5-7) have pos: "0 < ?L"
    by (simp add: elem_length_def norm_nodes_pos)
  have sym: "\<forall>r c. Klocal s' (r, c) = Klocal s' (c, r)"
    unfolding K using beam_stiffness_sym by blast
  from run K pos sym show ?thesis
    unfolding len [symmetric] by (simp add: Let_def power2_eq_square power3_eq_cube)
qed

text \<open>Witness for C1: the element from (1,2,3) to (3,4,4), of length 3, with
  \<open>EA = 2\<close>, \<open>EIz = 3\<close>, \<open>EIy = 5\<close> and \<open>GJ = 7\<close>, on a freshly constructed assembler:
  \<open>EA/L = 2/3\<close>, \<open>6 EIz/L^2 = 2\<close>, \<open>6 EIy/L^2 = 10/3\<close>.\<close>

theorem calcKelem_local_stiffness_witness:
  "\<exists>s'. calcKelem 0 JOB_INCLINED GlobalStiffAssembler_new = Inr s' \<and>
        Klocal s' = beam_stiffness (2 / 3) (7 / 3) (4 / 3) 2 1 (20 / 9) (10 / 3) (5 / 3) \<and>
        Klocal s' (0, 0) = 2 / 3 \<and> Klocal s' (1, 5) = 2 \<and> Klocal s' (8, 10) = 10 / 3 \<and>
        Klocal s' (0, 1) = 0 \<and>
        (\<forall>r c. Klocal s' (r, c) = Klocal s' (c, r))"
proof -
  from calcKelem_local_stiffness [of 0 JOB_INCLINED 1 2 3 3 4 4 GlobalStiffAssembler_new]
  obtain s' where run: "calcKelem 0 JOB_INCLINED GlobalStiffAssembler_new = Inr s'"
    and K: "Klocal s' = beam_stiffness (2 / 3) (7 / 3) (4 / 3) 2 1 (20 / 9) (10 / 3) (5 / 3)"
    and sym: "\<forall>r c. Klocal s' (r, c) = Klocal s' (c, r)"
    by (auto simp: JOB_INCLINED_def GlobalStiffAssembler_new_def in_range_def sqrt_9 Let_def)
  have "Klocal s' (0, 0) = 2 / 3" "Klocal s' (1, 5) = 2" "Klocal s' (8, 10) = 10 / 3"
    "Klocal s' (0, 1) = 0"
    unfolding K by (simp_all add: beam_stiffness_def)
  with run K sym show ?thesis by blast
qed

lemma lt12_cases: "i < 12 \<Longrightarrow> i \<in> {0, 1, 2, 3, 4, 5, 6, 7, 8, 9, 10, 11::nat}"
  by (simp del: One_nat_def) arith

lemma Aelem_pattern_iff:
  "(i, j) \<in> set Aelem_pattern \<longleftrightarrow> i < 12 \<and> j < 12 \<and> i div 3 = j div 3"
proof
  assume "(i, j) \<in> set Aelem_pattern"
  moreover have "\<forall>rc\<in>set Aelem_pattern. fst rc < 12 \<and> snd rc < 12 \<and> fst rc div 3 = snd rc div 3"
    unfolding Aelem_pattern_def by simp
  ultimately show "i < 12 \<and> j < 12 \<and> i div 3 = j div 3" by fastforce
next
  assume a: "i < 12 \<and> j < 12 \<and> i div 3 = j div 3"
  have "\<forall>i\<in>{0, 1, 2, 3, 4, 5, 6, 7, 8, 9, 10, 11}. \<forall>j\<in>{0, 1, 2, 3, 4, 5, 6, 7, 8, 9, 10, 11}.
          i div 3 = j div 3 \<longrightarrow> (i, j) \<in> set Aelem_pattern"
    unfolding Aelem_pattern_def by simp
  with a lt12_cases [of i] lt12_cases [of j] show "(i, j) \<in> set Aelem_pattern"
    by blast
qed

lemma Aelem_updates:
  assumes "\<forall>rc. rc \<notin> set Aelem_pattern \<longrightarrow> A rc = 0"
  shows "A
          ((0, 0) := at3 nx 0, (0, 1) := at3 nx 1, (0, 2) := at3 nx 2,
           (1, 0) := at3 ny 0, (1, 1) := at3 ny 1, (1, 2) := at3 ny 2,
           (2, 0) := at3 nz 0, (2, 1) := at3 nz 1, (2, 2) := at3 nz 2,
           (3, 3) := at3 nx 0, (3, 4) := at3 nx 1, (3, 5) := at3 nx 2,
           (4, 3) := at3 ny 0, (4, 4) := at3 ny 1, (4, 5) := at3 ny 2,
           (5, 3) := at3 nz 0, (5, 4) := at3 nz 1, (5, 5) := at3 nz 2,
           (6, 6) := at3 nx 0, (6, 7) := at3 nx 1, (6, 8) := at3 nx 2,
           (7, 6) := at3 ny 0, (7, 7) := at3 ny 1, (7, 8) := at3 ny 2,
           (8, 6) := at3 nz 0, (8, 7) := at3 nz 1, (8, 8) := at3 nz 2,
           (9, 9) := at3 nx 0, (9, 10) := at3 nx 1, (9, 11) := at3 nx 2,
           (10, 9) := at3 ny 0, (10, 10) := at3 ny 1, (10, 11) := at3 ny 2,
           (11, 9) := at3 nz 0, (11, 10) := at3 nz 1, (11, 11) := at3 nz 2) = rotation_matrix nx ny nz"
    (is "?L = ?R")
proof (rule ext)
  fix rc :: "nat \<times> nat"
  show "?L rc = ?R rc"
  proof (cases "rc \<in> set Aelem_pattern")
    case True
    have "\<forall>rc\<in>set Aelem_pattern. ?L rc = ?R rc"
      unfolding Aelem_pattern_def rotation_matrix_def by simp
    with True show ?thesis by blast
  next
    case False
    with assms have "A rc = 0" by blast
    moreover from False have "?R rc = 0"
      by (cases rc) (auto simp: Aelem_pattern_iff rotation_matrix_def)
    moreover from False have "?L rc = A rc"
      unfolding Aelem_pattern_def by simp
    ultimately show ?thesis by simp
  qed
qed

lemma Aelem_calcAelem:
  assumes "\<forall>rc. rc \<notin> set Aelem_pattern \<longrightarrow> Aelem s rc = 0"
  shows "Aelem (calcAelem nx ny s) =
           rotation_matrix nx ny (vdiv (cross nx ny) (squaredNorm (cross nx ny)))"
  by (simp add: calcAelem_def Let_def Aelem_updates [OF assms] del: One_nat_def)

lemma sqrt_25: "sqrt 25 = 5"
  by (rule real_sqrt_unique) simp_all

lemma sqrt_25_16: "sqrt (25 / 16) = 5 / 4"
  by (rule real_sqrt_unique) (simp_all add: power2_eq_square)

lemma Aelem_calcKelem:
  "calcKelem i job s = Inr s' \<Longrightarrow>
   Aelem s' = Aelem (calcAelem
      (normalized (vminus (nodes job ! nat (sint (snd (elems job ! i))))
                          (nodes job ! nat (sint (fst (elems job ! i))))))
      (normalized (normal_vec (props job ! i))) s)"
  by (auto simp: calcKelem_def Let_def calcAelem_def split: if_splits)

text \<open>
  Claim C3 says that the third row of each 3 by 3 block of the rotation matrix is the
  normalised cross product, of Euclidean norm 1. \<^verbatim>\<open>calcAelem\<close> divides the cross product by
  its squared norm, not by its norm. On the element from (0,0,0) to (1,0,0) with reference
  normal (3,4,0) the axis is (1,0,0), the normalised normal is (3/5,4/5,0), their cross
  product (0,0,4/5) is nonzero, and the third row stored by the code is (0,0,5/4), of
  norm 5/4.
\<close>

theorem calcAelem_third_row_not_unit:
  "\<exists>s'. calcKelem 0 JOB_SKEW_NORMAL GlobalStiffAssembler_new = Inr s' \<and>
     cross (1, 0, 0) (3 / 5, 4 / 5, 0) \<noteq> (0, 0, 0) \<and>
     Aelem s' = rotation_matrix (1, 0, 0) (3 / 5, 4 / 5, 0) (0, 0, 5 / 4) \<and>
     vnorm (Aelem s' (2, 0), Aelem s' (2, 1), Aelem s' (2, 2)) = 5 / 4"
proof -
  have inv: "\<forall>rc. rc \<notin> set Aelem_pattern \<longrightarrow> Aelem GlobalStiffAssembler_new rc = 0"
    by (simp add: GlobalStiffAssembler_new_def)
  have "\<exists>s'. calcKelem 0 JOB_SKEW_NORMAL GlobalStiffAssembler_new = Inr s'"
    by (simp add: calcKelem_def JOB_SKEW_NORMAL_def in_range_def Let_def)
  then obtain s' where run: "calcKelem 0 JOB_SKEW_NORMAL GlobalStiffAssembler_new = Inr s'"
    by blast
  have A: "Aelem s' = rotation_matrix (1, 0, 0) (3 / 5, 4 / 5, 0) (0, 0, 5 / 4)"
    unfolding Aelem_calcKelem [OF run] Aelem_calcAelem [OF inv]
    by (simp add: JOB_SKEW_NORMAL_def normalized_def sqrt_25)
  have "vnorm (Aelem s' (2, 0), Aelem s' (2, 1), Aelem s' (2, 2)) = 5 / 4"
    unfolding A by (simp add: rotation_matrix_def vnorm_def sqrt_25_16)
  with run A show ?thesis by simp
qed

lemma sum_lt12:
  "(\<Sum>k<12. f k) = f 0 + f 1 + f 2 + f 3 + f 4 + f 5 + f 6 + f 7 + f 8 + f 9 + f 10 + f (11::nat)"
  by (simp add: eval_nat_numeral lessThan_Suc add.commute add.left_commute)

lemma rotation_gram_entries:
  fixes a0 a1 a2 b0 b1 b2 c0 c1 c2 :: real
  assumes "a0 * a0 + b0 * b0 + c0 * c0 = 1" "a0 * a1 + b0 * b1 + c0 * c1 = 0" "a0 * a2 + b0 * b2 + c0 * c2 = 0"
      and "a1 * a0 + b1 * b0 + c1 * c0 = 0" "a1 * a1 + b1 * b1 + c1 * c1 = 1" "a1 * a2 + b1 * b2 + c1 * c2 = 0"
      and "a2 * a0 + b2 * b0 + c2 * c0 = 0" "a2 * a1 + b2 * b1 + c2 * c1 = 0" "a2 * a2 + b2 * b2 + c2 * c2 = 1"
  shows "\<forall>i\<in>{0, 1, 2, 3, 4, 5, 6, 7, 8, 9, 10, 11}. \<forall>j\<in>{0, 1, 2, 3, 4, 5, 6, 7, 8, 9, 10, 11}.
          mat_mul (mat_transpose (rotation_matrix (a0, a1, a2) (b0, b1, b2) (c0, c1, c2)))
                  (rotation_matrix (a0, a1, a2) (b0, b1, b2) (c0, c1, c2)) (i, j) = mat_identity (i, j)"
  using assms
  by (simp add: mat_mul_def mat_transpose_def rotation_matrix_def mat_identity_def sum_lt12)

lemma rotation_gram:
  fixes a0 a1 a2 b0 b1 b2 c0 c1 c2 :: real
  assumes "a0 * a0 + b0 * b0 + c0 * c0 = 1" "a0 * a1 + b0 * b1 + c0 * c1 = 0" "a0 * a2 + b0 * b2 + c0 * c2 = 0"
      and "a1 * a0 + b1 * b0 + c1 * c0 = 0" "a1 * a1 + b1 * b1 + c1 * c1 = 1" "a1 * a2 + b1 * b2 + c1 * c2 = 0"
      and "a2 * a0 + b2 * b0 + c2 * c0 = 0" "a2 * a1 + b2 * b1 + c2 * c1 = 0" "a2 * a2 + b2 * b2 + c2 * c2 = 1"
  shows "mat_mul (mat_transpose (rotation_matrix (a0, a1, a2) (b0, b1, b2) (c0, c1, c2)))
                 (rotation_matrix (a0, a1, a2) (b0, b1, b2) (c0, c1, c2)) = mat_identity"
    (is "?G = _")
proof (rule ext)
  fix rc :: "nat \<times> nat"
  obtain i j where rc: "rc = (i, j)" by (cases rc) auto
  show "?G rc = mat_identity rc"
  proof (cases "i < 12 \<and> j < 12")
    case True
    with rotation_gram_entries [OF assms] lt12_cases [of i] lt12_cases [of j]
    show ?thesis unfolding rc by blast
  next
    case False
    then show ?thesis
      by (auto simp: rc mat_mul_def mat_transpose_def rotation_matrix_def mat_identity_def)
  qed
qed

lemma cross_gram:
  fixes a0 a1 a2 b0 b1 b2 c0 c1 c2 :: real
  assumes aa: "a0 * a0 + a1 * a1 + a2 * a2 = 1"
      and bb: "b0 * b0 + b1 * b1 + b2 * b2 = 1"
      and ab: "a0 * b0 + a1 * b1 + a2 * b2 = 0"
      and c: "c0 = a1 * b2 - a2 * b1" "c1 = a2 * b0 - a0 * b2" "c2 = a0 * b1 - a1 * b0"
  shows "a0 * a0 + b0 * b0 + c0 * c0 = 1" "a0 * a1 + b0 * b1 + c0 * c1 = 0"
        "a0 * a2 + b0 * b2 + c0 * c2 = 0" "a1 * a1 + b1 * b1 + c1 * c1 = 1"
        "a1 * a2 + b1 * b2 + c1 * c2 = 0" "a2 * a2 + b2 * b2 + c2 * c2 = 1"
        "c0 * c0 + c1 * c1 + c2 * c2 = 1"
proof -
  let ?aa = "a0 * a0 + a1 * a1 + a2 * a2" and ?bb = "b0 * b0 + b1 * b1 + b2 * b2"
  let ?ab = "a0 * b0 + a1 * b1 + a2 * b2"
  have "a0 * a0 * ?bb + b0 * b0 * ?aa + c0 * c0 - ?ab * (a0 * b0 + a0 * b0) = ?aa * ?bb - ?ab * ?ab"
    unfolding c by (simp add: algebra_simps)
  then show "a0 * a0 + b0 * b0 + c0 * c0 = 1" unfolding aa bb ab by simp
  have "a0 * a1 * ?bb + b0 * b1 * ?aa + c0 * c1 - ?ab * (a0 * b1 + a1 * b0) = 0"
    unfolding c by (simp add: algebra_simps)
  then show "a0 * a1 + b0 * b1 + c0 * c1 = 0" unfolding aa bb ab by simp
  have "a0 * a2 * ?bb + b0 * b2 * ?aa + c0 * c2 - ?ab * (a0 * b2 + a2 * b0) = 0"
    unfolding c by (simp add: algebra_simps)
  then show "a0 * a2 + b0 * b2 + c0 * c2 = 0" unfolding aa bb ab by simp
  have "a1 * a1 * ?bb + b1 * b1 * ?aa + c1 * c1 - ?ab * (a1 * b1 + a1 * b1) = ?aa * ?bb - ?ab * ?ab"
    unfolding c by (simp add: algebra_simps)
  then show "a1 * a1 + b1 * b1 + c1 * c1 = 1" unfolding aa bb ab by simp
  have "a1 * a2 * ?bb + b1 * b2 * ?aa + c1 * c2 - ?ab * (a1 * b2 + a2 * b1) = 0"
    unfolding c by (simp add: algebra_simps)
  then show "a1 * a2 + b1 * b2 + c1 * c2 = 0" unfolding aa bb ab by simp
  have "a2 * a2 * ?bb + b2 * b2 * ?aa + c2 * c2 - ?ab * (a2 * b2 + a2 * b2) = ?aa * ?bb - ?ab * ?ab"
    unfolding c by (simp add: algebra_simps)
  then show "a2 * a2 + b2 * b2 + c2 * c2 = 1" unfolding aa bb ab by simp
  have "c0 * c0 + c1 * c1 + c2 * c2 = ?aa * ?bb - ?ab * ?ab"
    unfolding c by (simp add: algebra_simps)
  then show "c0 * c0 + c1 * c1 + c2 * c2 = 1" unfolding aa bb ab by simp
qed

lemma calcAelem_orthonormal:
  assumes inv: "\<forall>rc. rc \<notin> set Aelem_pattern \<longrightarrow> Aelem s rc = 0"
    and nx: "squaredNorm nx = 1" and ny: "squaredNorm ny = 1" and perp: "dot nx ny = 0"
  shows "mat_mul (mat_transpose (Aelem (calcAelem nx ny s))) (Aelem (calcAelem nx ny s)) = mat_identity"
proof -
  obtain a0 a1 a2 where a: "nx = (a0, a1, a2)" by (cases nx) auto
  obtain b0 b1 b2 where b: "ny = (b0, b1, b2)" by (cases ny) auto
  define c0 c1 c2 where c: "c0 = a1 * b2 - a2 * b1" "c1 = a2 * b0 - a0 * b2" "c2 = a0 * b1 - a1 * b0"
  from nx a have aa: "a0 * a0 + a1 * a1 + a2 * a2 = 1" by simp
  from ny b have bb: "b0 * b0 + b1 * b1 + b2 * b2 = 1" by simp
  from perp a b have ab: "a0 * b0 + a1 * b1 + a2 * b2 = 0" by simp
  note g = cross_gram [OF aa bb ab c]
  have cr: "cross nx ny = (c0, c1, c2)" by (simp add: a b c)
  have A: "Aelem (calcAelem nx ny s) = rotation_matrix (a0, a1, a2) (b0, b1, b2) (c0, c1, c2)"
    unfolding Aelem_calcAelem [OF inv] cr by (simp add: a b g(7))
  have g': "a1 * a0 + b1 * b0 + c1 * c0 = 0" "a2 * a0 + b2 * b0 + c2 * c0 = 0" "a2 * a1 + b2 * b1 + c2 * c1 = 0"
    using g(2,3,5) by (simp_all add: mult.commute)
  show ?thesis unfolding A
    by (rule rotation_gram) (fact g g')+
qed

lemma rotation_matrix_identity: "rotation_matrix (1, 0, 0) (0, 1, 0) (0, 0, 1) = mat_identity"
proof -
  have "\<forall>i\<in>{0, 1, 2, 3, 4, 5, 6, 7, 8, 9, 10, 11}. \<forall>j\<in>{0, 1, 2, 3, 4, 5, 6, 7, 8, 9, 10, 11}.
          rotation_matrix (1, 0, 0) (0, 1, 0) (0, 0, 1) (i, j) = mat_identity (i, j)"
    by (simp add: rotation_matrix_def mat_identity_def)
  then have in12: "i < 12 \<Longrightarrow> j < 12 \<Longrightarrow>
      rotation_matrix (1, 0, 0) (0, 1, 0) (0, 0, 1) (i, j) = mat_identity (i, j)" for i j
    using lt12_cases [of i] lt12_cases [of j] by blast
  show ?thesis
  proof (rule ext)
    fix rc :: "nat \<times> nat"
    obtain i j where rc: "rc = (i, j)" by (cases rc) auto
    show "rotation_matrix (1, 0, 0) (0, 1, 0) (0, 0, 1) rc = mat_identity rc"
    proof (cases "i < 12 \<and> j < 12")
      case True
      then show ?thesis unfolding rc by (simp add: in12)
    next
      case False
      then show ?thesis by (auto simp: rc rotation_matrix_def mat_identity_def)
    qed
  qed
qed

text \<open>
  Claim C4, amended. With \<open>nx = (1,0,0)\<close> and \<open>ny = (0,1,0)\<close> the rotation matrix built by
  \<^verbatim>\<open>calcAelem\<close> is the 12 by 12 identity; and for every unit axis \<open>nx\<close> and unit normal
  \<open>ny\<close> perpendicular to it, the rotation matrix \<open>R\<close> satisfies \<open>R\<^sup>T R = I\<close>. (The claim
  as stated asks this of every normal not collinear with the axis.)
\<close>

theorem calcAelem_rotation:
  assumes "\<forall>rc. rc \<notin> set Aelem_pattern \<longrightarrow> Aelem s rc = 0"
  shows "Aelem (calcAelem (1, 0, 0) (0, 1, 0) s) = mat_identity \<and>
         (\<forall>nx ny. squaredNorm nx = 1 \<and> squaredNorm ny = 1 \<and> dot nx ny = 0 \<longrightarrow>
            mat_mul (mat_transpose (Aelem (calcAelem nx ny s))) (Aelem (calcAelem nx ny s))
              = mat_identity)"
proof
  show "Aelem (calcAelem (1, 0, 0) (0, 1, 0) s) = mat_identity"
    unfolding Aelem_calcAelem [OF assms] by (simp add: rotation_matrix_identity)
  show "\<forall>nx ny. squaredNorm nx = 1 \<and> squaredNorm ny = 1 \<and> dot nx ny = 0 \<longrightarrow>
            mat_mul (mat_transpose (Aelem (calcAelem nx ny s))) (Aelem (calcAelem nx ny s))
              = mat_identity"
    using calcAelem_orthonormal [OF assms] by blast
qed

text \<open>Witness for C4: the fresh assembler, and the perpendicular unit pair (0,1,0), (0,0,1).\<close>

theorem calcAelem_rotation_witness:
  "Aelem (calcAelem (1, 0, 0) (0, 1, 0) GlobalStiffAssembler_new) = mat_identity \<and>
   mat_mul (mat_transpose (Aelem (calcAelem (0, 1, 0) (0, 0, 1) GlobalStiffAssembler_new)))
           (Aelem (calcAelem (0, 1, 0) (0, 0, 1) GlobalStiffAssembler_new)) = mat_identity"
proof -
  have inv: "\<forall>rc. rc \<notin> set Aelem_pattern \<longrightarrow> Aelem GlobalStiffAssembler_new rc = 0"
    by (simp add: GlobalStiffAssembler_new_def)
  have "squaredNorm (0, 1, 0) = 1 \<and> squaredNorm (0, 0, 1) = 1 \<and> dot (0, 1, 0) (0, 0, 1) = 0"
    by simp
  with calcAelem_rotation [OF inv] show ?thesis by blast
qed

text \<open>
  Counterexample to C4 as stated: the unit normal (3/5,4/5,0) is not collinear with the
  unit axis (1,0,0), yet entry (0,1) of \<open>R\<^sup>T R\<close> is 12/25 and not 0, because the rows \<open>nx\<close>
  and \<open>ny\<close> of \<open>R\<close> are the vectors as given and are not perpendicular.
\<close>

theorem calcAelem_skew_normal_not_orthogonal:
  "cross (1, 0, 0) (3 / 5, 4 / 5, 0) \<noteq> (0, 0, 0) \<and>
   mat_mul (mat_transpose (Aelem (calcAelem (1, 0, 0) (3 / 5, 4 / 5, 0) GlobalStiffAssembler_new)))
           (Aelem (calcAelem (1, 0, 0) (3 / 5, 4 / 5, 0) GlobalStiffAssembler_new)) (0, 1) = 3 / 5 * (4 / 5) \<and>
   mat_identity (0, 1) = 0 \<and>
   mat_mul (mat_transpose (Aelem (calcAelem (1, 0, 0) (3 / 5, 4 / 5, 0) GlobalStiffAssembler_new)))
           (Aelem (calcAelem (1, 0, 0) (3 / 5, 4 / 5, 0) GlobalStiffAssembler_new)) \<noteq> mat_identity"
proof -
  have inv: "\<forall>rc. rc \<notin> set Aelem_pattern \<longrightarrow> Aelem GlobalStiffAssembler_new rc = 0"
    by (simp add: GlobalStiffAssembler_new_def)
  let ?R = "Aelem (calcAelem (1, 0, 0) (3 / 5, 4 / 5, 0) GlobalStiffAssembler_new)"
  have e: "mat_mul (mat_transpose ?R) ?R (0, 1) = 3 / 5 * (4 / 5)"
    unfolding Aelem_calcAelem [OF inv]
    by (simp add: mat_mul_def mat_transpose_def rotation_matrix_def sum_lt12)
  have i: "mat_identity (0, 1) = 0" by (simp add: mat_identity_def)
  from e i have "mat_mul (mat_transpose ?R) ?R (0, 1) \<noteq> mat_identity (0, 1)" by simp
  then have "mat_mul (mat_transpose ?R) ?R \<noteq> mat_identity" by metis
  with e i show ?thesis by simp
qed

text \<open>
  Claim C8, amended. For an element whose reference normal is parallel to its axis (the
  cross product of the two normalised vectors is zero), the element kernel signals no
  error: \<^verbatim>\<open>calcKelem\<close> returns normally with an assembler state. Neither \<^verbatim>\<open>calcKelem\<close>
  nor \<^verbatim>\<open>calcAelem\<close> tests the cross product; the only failures of the model are
  out-of-range indices.
\<close>

theorem calcKelem_parallel_normal_no_error:
  assumes "i < length (props job)" and "i < length (elems job)"
    and "in_range (fst (elems job ! i)) (nodes job)"
    and "in_range (snd (elems job ! i)) (nodes job)"
    and "cross (normalized (vminus (nodes job ! nat (sint (snd (elems job ! i))))
                                   (nodes job ! nat (sint (fst (elems job ! i))))))
               (normalized (normal_vec (props job ! i))) = (0, 0, 0)"
  shows "\<exists>s'. calcKelem i job s = Inr s'"
  using assms(1-4) by (simp add: calcKelem_def Let_def)

text \<open>Witness for C8: the unit cantilever with reference normal (1,0,0) along its axis.\<close>

theorem calcKelem_parallel_normal_no_error_witness:
  "\<exists>s'. calcKelem 0 JOB_PARALLEL_NORMAL GlobalStiffAssembler_new = Inr s'"
  using calcKelem_parallel_normal_no_error [of 0 JOB_PARALLEL_NORMAL GlobalStiffAssembler_new]
  by (simp add: JOB_PARALLEL_NORMAL_def in_range_def normalized_def)

text \<open>
  Counterexample to C8 as stated: on that element the cross product is zero and the result
  of \<^verbatim>\<open>calcKelem\<close> is not an error.
\<close>

theorem calcKelem_parallel_normal_counterexample:
  "cross (normalized (vminus (1, 0, 0) (0, 0, 0))) (normalized (1, 0, 0)) = (0, 0, 0) \<and>
   \<not> isl (calcKelem 0 JOB_PARALLEL_NORMAL GlobalStiffAssembler_new)"
  by (simp add: calcKelem_def JOB_PARALLEL_NORMAL_def in_range_def normalized_def Let_def)

section \<open>Machine arithmetic of the index expressions\<close>

lemma unat_dof_index:
  fixes n d :: "32 word"
  assumes "6 * unat n + unat d < 2 ^ 32"
  shows "unat (6 * n + d) = 6 * unat n + unat d"
proof -
  from assms have "unat (6 :: 32 word) * unat n < 2 ^ LENGTH(32)" by simp
  then have m: "unat (6 * n) = 6 * unat n" by (simp add: unat_mult_lem [THEN iffD1])
  from assms m have "unat (6 * n) + unat d < 2 ^ LENGTH(32)" by simp
  then have "unat (6 * n + d) = unat (6 * n) + unat d" by (simp add: unat_add_lem [THEN iffD1])
  with m show ?thesis by simp
qed

lemma unat_global_add_idx:
  assumes "6 * n < 2 ^ 32"
  shows "unat (6 * of_nat n :: 32 word) = 6 * n"
proof -
  from assms have "n < 2 ^ 32" by simp
  then have "unat (of_nat n :: 32 word) = n" by (simp add: unat_of_nat)
  with unat_dof_index [of "of_nat n" 0] assms show ?thesis by simp
qed

lemma sint_eq_uint_small:
  fixes w :: "32 word"
  assumes "uint w < 2 ^ 31"
  shows "sint w = uint w"
proof -
  have "sint w = signed_take_bit (LENGTH(32) - Suc 0) (uint w)" by (rule sint_uint)
  also have "\<dots> = signed_take_bit 31 (uint w)" by simp
  also have "\<dots> = uint w"
  proof (rule signed_take_bit_int_eq_self)
    have "- (2 ^ 31) \<le> (0::int)" by simp
    also have "0 \<le> uint w" by simp
    finally show "- (2 ^ 31) \<le> uint w" .
    show "uint w < 2 ^ 31" by (fact assms)
  qed
  finally show ?thesis .
qed

lemma uint_small_of_sint:
  fixes w :: "32 word"
  assumes "0 \<le> sint w"
  shows "uint w < 2 ^ 31"
proof (rule ccontr)
  assume "\<not> uint w < 2 ^ 31"
  then have big: "2 ^ 31 \<le> uint w" by simp
  have "sint w = signed_take_bit (LENGTH(32) - Suc 0) (uint w)" by (rule sint_uint)
  also have "\<dots> = signed_take_bit 31 (uint w)" by simp
  also have "\<dots> \<le> uint w - 2 ^ Suc 31" using big by (rule signed_take_bit_int_less_eq)
  also have "\<dots> < 0" using uint_lt2p [of w] by simp
  finally show False using assms by simp
qed

lemma in_range_unat:
  assumes "in_range nn xs"
  shows "unat nn = nat (sint nn)" and "unat nn < length xs"
proof -
  from assms have nonneg: "0 \<le> sint nn" and lt: "nat (sint nn) < length xs"
    by (simp_all add: in_range_def)
  from nonneg have "uint nn < 2 ^ 31" by (rule uint_small_of_sint)
  then have "sint nn = uint nn" by (rule sint_eq_uint_small)
  then show "unat nn = nat (sint nn)" by simp
  with lt show "unat nn < length xs" by simp
qed

lemma sint_dof_index:
  fixes n :: "32 word"
  assumes "6 * unat n + r < 2 ^ 31"
  shows "sint (6 * n + of_nat r) = int (6 * unat n + r)"
proof -
  have le: "(2::nat) ^ 31 \<le> 2 ^ 32" by simp
  from assms le have r: "r < 2 ^ 32" by linarith
  then have ur: "unat (of_nat r :: 32 word) = r" by (simp add: unat_of_nat)
  from assms le have "6 * unat n + unat (of_nat r :: 32 word) < 2 ^ 32" unfolding ur by linarith
  then have u: "unat (6 * n + of_nat r) = 6 * unat n + r"
    using unat_dof_index [of n "of_nat r"] ur by simp
  have "uint (6 * n + of_nat r) = int (unat (6 * n + of_nat r))" by simp
  also have "\<dots> = int (6 * unat n + r)" by (simp only: u)
  finally have ui: "uint (6 * n + of_nat r) = int (6 * unat n + r)" .
  from assms have "int (6 * unat n + r) < int (2 ^ 31)" by (simp only: of_nat_less_iff)
  then have "uint (6 * n + of_nat r) < 2 ^ 31" unfolding ui by simp
  then have "sint (6 * n + of_nat r) = uint (6 * n + of_nat r)" by (rule sint_eq_uint_small)
  with ui show ?thesis by simp
qed

lemma second_node_index:
  fixes nn2 :: "32 word"
  assumes "6 \<le> r"
  shows "6 * (nn2 - 1) + of_nat r = 6 * nn2 + of_nat (r - 6)"
proof -
  from assms have "r = (r - 6) + 6" by simp
  then have "(of_nat r :: 32 word) = of_nat (r - 6) + 6"
    by (metis of_nat_add of_nat_numeral)
  then show ?thesis by (simp add: algebra_simps)
qed

lemma of_nat_less_6:
  assumes "r < 12"
  shows "(of_nat r :: 32 word) < 6 \<longleftrightarrow> r < 6"
proof -
  from assms have "r < 2 ^ 32" by simp
  then have "unat (of_nat r :: 32 word) = r" by (simp add: unat_of_nat)
  then show ?thesis by (simp add: word_less_nat_alt)
qed

lemma scatter_global_dof:
  assumes "r < 12" and "c < 12"
    and "6 * unat nn1 + 6 \<le> 2 ^ 31" and "6 * unat nn2 + 6 \<le> 2 ^ 31"
  shows "scatter nn1 nn2 (r, c, v) =
           (int (global_dof (unat nn1) (unat nn2) r), int (global_dof (unat nn1) (unat nn2) c), v)"
proof -
  let ?g = "global_dof (unat nn1) (unat nn2)"
  have idx: "sint (6 * nn1 + of_nat k) = int (6 * unat nn1 + k)"
            "sint (6 * nn2 + of_nat k) = int (6 * unat nn2 + k)" if "k < 6" for k
  proof -
    from that assms(3) have "6 * unat nn1 + k < 2 ^ 31" by linarith
    then show "sint (6 * nn1 + of_nat k) = int (6 * unat nn1 + k)" by (rule sint_dof_index)
    from that assms(4) have "6 * unat nn2 + k < 2 ^ 31" by linarith
    then show "sint (6 * nn2 + of_nat k) = int (6 * unat nn2 + k)" by (rule sint_dof_index)
  qed
  have first: "sint (6 * nn1 + of_nat k) = int (?g k)" if "k < 6" for k
    using that idx(1) by (simp add: global_dof_def)
  have second: "sint (6 * (nn2 - 1) + of_nat k) = int (?g k)" if "\<not> k < 6" and "k < 12" for k
  proof -
    from that have "6 \<le> k" and "k - 6 < 6" by simp_all
    from that(1) have "?g k = 6 * unat nn2 + (k - 6)" by (simp add: global_dof_def)
    then show ?thesis
      by (simp only: second_node_index [OF \<open>6 \<le> k\<close>] idx(2) [OF \<open>k - 6 < 6\<close>])
  qed
  show ?thesis
    using assms(1,2) first second
    by (simp add: scatter_def Let_def of_nat_less_6)
qed

section \<open>The assembler\<close>

lemma triplet_sum_Nil [simp]: "triplet_sum [] rc = 0"
  by (simp add: triplet_sum_def)

lemma triplet_sum_append: "triplet_sum (xs @ ys) rc = triplet_sum xs rc + triplet_sum ys rc"
  by (simp add: triplet_sum_def)

lemma triplet_sum_concat:
  "triplet_sum (concat (map f xs)) rc = (\<Sum>x\<leftarrow>xs. triplet_sum (f x) rc)"
  by (induction xs) (simp_all add: triplet_sum_append)

lemma fold_add_triplet_value:
  "(case fold add_triplet ts c rc of None \<Rightarrow> 0 | Some v \<Rightarrow> v) =
   (case c rc of None \<Rightarrow> 0 | Some v \<Rightarrow> v) + triplet_sum ts rc"
proof (induction ts arbitrary: c)
  case Nil
  then show ?case by simp
next
  case (Cons t ts)
  obtain i j v where t: "t = (i, j, v)" by (cases t) auto
  show ?case
    by (simp add: Cons.IH t triplet_sum_def split: option.splits)
qed

lemma fold_add_triplet_keys:
  "fold add_triplet ts c rc \<noteq> None \<Longrightarrow>
   c rc \<noteq> None \<or> (\<exists>t\<in>set ts. (nat (fst t), nat (fst (snd t))) = rc)"
proof (induction ts arbitrary: c)
  case Nil
  then show ?case by simp
next
  case (Cons t ts)
  obtain i j v where t: "t = (i, j, v)" by (cases t) auto
  from Cons.prems have "fold add_triplet ts (add_triplet t c) rc \<noteq> None" by simp
  from Cons.IH [OF this] show ?case
    by (auto simp: t split: if_splits)
qed

lemma setFromTriplets_Inr:
  assumes "setFromTriplets ts m = Inr m'"
  shows "rows m' = rows m" and "cols m' = cols m"
    and "coeff m' rc = triplet_sum ts rc"
    and "coeffs m' (r, c) \<noteq> None \<Longrightarrow> r < rows m \<and> c < cols m"
proof -
  from assms have ok: "list_all (triplet_in_range m) ts"
    and m': "m' = m\<lparr>coeffs := fold add_triplet ts Map.empty\<rparr>"
    by (auto simp: setFromTriplets_def split: if_splits)
  show "rows m' = rows m" "cols m' = cols m" by (simp_all add: m')
  show "coeff m' rc = triplet_sum ts rc"
    using fold_add_triplet_value [of ts Map.empty rc] by (simp add: m' coeff_def)
  assume "coeffs m' (r, c) \<noteq> None"
  then have "fold add_triplet ts Map.empty (r, c) \<noteq> None" by (simp add: m')
  from fold_add_triplet_keys [OF this] obtain t where "t \<in> set ts"
    and rc: "(nat (fst t), nat (fst (snd t))) = (r, c)" by auto
  with ok have "triplet_in_range m t" by (simp add: list_all_iff)
  with rc show "r < rows m \<and> c < cols m"
    by (cases t) (auto simp: triplet_in_range_def)
qed

lemma sum_list_filter_concat:
  "(\<Sum>e\<leftarrow>filter P (concat (map (\<lambda>c. map (\<lambda>r. F r c) rs) cs)). h e) =
   (\<Sum>c\<leftarrow>cs. \<Sum>r\<leftarrow>rs. if P (F r c) then h (F r c) else (0::real))"
proof (induction cs)
  case Nil
  then show ?case by simp
next
  case (Cons c cs)
  have "(\<Sum>e\<leftarrow>filter P (map (\<lambda>r. F r c) rs). h e) = (\<Sum>r\<leftarrow>rs. if P (F r c) then h (F r c) else 0)"
    by (induction rs) simp_all
  with Cons show ?case by simp
qed

lemma sparseView_triplet_sum:
  assumes "6 * unat nn1 + 6 \<le> 2 ^ 31" and "6 * unat nn2 + 6 \<le> 2 ^ 31"
  shows "triplet_sum (map (scatter nn1 nn2) (sparseView K)) RC =
           elem_contribution (unat nn1) (unat nn2) K RC"
proof -
  let ?g = "global_dof (unat nn1) (unat nn2)"
  let ?h = "\<lambda>t. case t of (i, j, v) \<Rightarrow> if (nat i, nat j) = RC then (v::real) else 0"
  let ?P = "\<lambda>(r :: nat, c :: nat, v :: real). v \<noteq> 0"
  have entry: "(if ?P (r, c, K (r, c)) then ?h (scatter nn1 nn2 (r, c, K (r, c))) else 0) =
               (if (?g r, ?g c) = RC then K (r, c) else 0)" if "r < 12" "c < 12" for r c
    using scatter_global_dof [OF that assms] by auto
  have "triplet_sum (map (scatter nn1 nn2) (sparseView K)) RC =
        (\<Sum>c\<leftarrow>[0..<12]. \<Sum>r\<leftarrow>[0..<12].
           if ?P (r, c, K (r, c)) then ?h (scatter nn1 nn2 (r, c, K (r, c))) else 0)"
    unfolding triplet_sum_def sparseView_def map_map o_def
    by (rule sum_list_filter_concat [of "\<lambda>e. ?h (scatter nn1 nn2 e)" ?P "\<lambda>r c. (r, c, K (r, c))"])
  also have "\<dots> = (\<Sum>c<12. \<Sum>r<12.
           if ?P (r, c, K (r, c)) then ?h (scatter nn1 nn2 (r, c, K (r, c))) else 0)"
    by (simp only: interv_sum_list_conv_sum_set_nat set_upt atLeast0LessThan)
  also have "\<dots> = (\<Sum>c<12. \<Sum>r<12. if (?g r, ?g c) = RC then K (r, c) else 0)"
    by (intro sum.cong refl entry) simp_all
  also have "\<dots> = (\<Sum>r<12. \<Sum>c<12. if (?g r, ?g c) = RC then K (r, c) else 0)"
    by (rule sum.swap)
  finally show ?thesis by (simp add: elem_contribution_def)
qed

lemma AelemT_updates:
  assumes "\<forall>rc. rc \<notin> set Aelem_pattern \<longrightarrow> A rc = 0"
  shows "A
          ((0, 0) := at3 nx 0, (0, 1) := at3 ny 0, (0, 2) := at3 nz 0,
           (1, 0) := at3 nx 1, (1, 1) := at3 ny 1, (1, 2) := at3 nz 1,
           (2, 0) := at3 nx 2, (2, 1) := at3 ny 2, (2, 2) := at3 nz 2,
           (3, 3) := at3 nx 0, (3, 4) := at3 ny 0, (3, 5) := at3 nz 0,
           (4, 3) := at3 nx 1, (4, 4) := at3 ny 1, (4, 5) := at3 nz 1,
           (5, 3) := at3 nx 2, (5, 4) := at3 ny 2, (5, 5) := at3 nz 2,
           (6, 6) := at3 nx 0, (6, 7) := at3 ny 0, (6, 8) := at3 nz 0,
           (7, 6) := at3 nx 1, (7, 7) := at3 ny 1, (7, 8) := at3 nz 1,
           (8, 6) := at3 nx 2, (8, 7) := at3 ny 2, (8, 8) := at3 nz 2,
           (9, 9) := at3 nx 0, (9, 10) := at3 ny 0, (9, 11) := at3 nz 0,
           (10, 9) := at3 nx 1, (10, 10) := at3 ny 1, (10, 11) := at3 nz 1,
           (11, 9) := at3 nx 2, (11, 10) := at3 ny 2, (11, 11) := at3 nz 2) = mat_transpose (rotation_matrix nx ny nz)"
    (is "?L = ?R")
proof (rule ext)
  fix rc :: "nat \<times> nat"
  show "?L rc = ?R rc"
  proof (cases "rc \<in> set Aelem_pattern")
    case True
    have "\<forall>rc\<in>set Aelem_pattern. ?L rc = ?R rc"
      unfolding Aelem_pattern_def rotation_matrix_def mat_transpose_def by simp
    with True show ?thesis by blast
  next
    case False
    with assms have "A rc = 0" by blast
    moreover from False have "?R rc = 0"
      by (cases rc) (auto simp: Aelem_pattern_iff rotation_matrix_def mat_transpose_def)
    moreover from False have "?L rc = A rc"
      unfolding Aelem_pattern_def by simp
    ultimately show ?thesis by simp
  qed
qed

lemma asm_inv_new: "asm_inv GlobalStiffAssembler_new"
  by (simp add: asm_inv_def GlobalStiffAssembler_new_def)

lemma calcKelem_closed:
  assumes "asm_inv s" and "valid_elem job i"
  shows "calcKelem i job s =
           Inr \<lparr>Kelem = mat_mul (mat_mul (mat_transpose (elem_Aelem job i)) (elem_Klocal job i))
                                  (elem_Aelem job i),
                Klocal = elem_Klocal job i, Aelem = elem_Aelem job i,
                AelemT = mat_transpose (elem_Aelem job i)\<rparr>"
proof -
  obtain k l a t where s: "s = \<lparr>Kelem = k, Klocal = l, Aelem = a, AelemT = t\<rparr>"
    by (cases s) auto
  from assms(1) have l: "\<forall>rc. rc \<notin> set Klocal_pattern \<longrightarrow> l rc = 0"
    and a: "\<forall>rc. rc \<notin> set Aelem_pattern \<longrightarrow> a rc = 0"
    and t: "\<forall>rc. rc \<notin> set Aelem_pattern \<longrightarrow> t rc = 0"
    by (simp_all add: asm_inv_def s)
  from assms(2) show ?thesis
    by (simp add: valid_elem_def calcKelem_def calcAelem_def s Let_def elem_Klocal_def
        elem_Aelem_def elem_length_def Klocal_updates [OF l] Aelem_updates [OF a]
        AelemT_updates [OF t] del: One_nat_def)
qed

lemma rotation_matrix_outside:
  "rc \<notin> set Aelem_pattern \<Longrightarrow> rotation_matrix nx ny nz rc = 0"
  "rc \<notin> set Aelem_pattern \<Longrightarrow> mat_transpose (rotation_matrix nx ny nz) rc = 0"
  by (cases rc; auto simp: Aelem_pattern_iff rotation_matrix_def mat_transpose_def)+

lemma calcKelem_state:
  assumes "asm_inv s" and "valid_elem job i"
  shows "\<exists>s'. calcKelem i job s = Inr s' \<and> asm_inv s' \<and> Kelem s' = element_matrix job i"
proof -
  let ?s' = "\<lparr>Kelem = mat_mul (mat_mul (mat_transpose (elem_Aelem job i)) (elem_Klocal job i))
                                  (elem_Aelem job i),
                Klocal = elem_Klocal job i, Aelem = elem_Aelem job i,
                AelemT = mat_transpose (elem_Aelem job i)\<rparr>"
  have run: "calcKelem i job s = Inr ?s'" using assms by (rule calcKelem_closed)
  have new: "calcKelem i job GlobalStiffAssembler_new = Inr ?s'"
    using asm_inv_new assms(2) by (rule calcKelem_closed)
  have inv: "asm_inv ?s'"
    by (simp add: asm_inv_def elem_Klocal_def elem_Aelem_def Let_def beam_stiffness_outside
        rotation_matrix_outside)
  have "Kelem ?s' = element_matrix job i"
    by (simp add: element_matrix_def new)
  with run inv show ?thesis by blast
qed

lemma assemble_elems_total:
  assumes "asm_inv s" and "\<forall>i\<in>set is. valid_elem job i"
  shows "\<exists>s'. assemble_elems is job (s, ts) = Inr (s', ts @ concat (map (elem_triplets job) is)) \<and>
              asm_inv s'"
  using assms
proof (induction "is" arbitrary: s ts)
  case Nil
  then show ?case by simp
next
  case (Cons i "is")
  from Cons.prems have "valid_elem job i" by simp
  from calcKelem_state [OF Cons.prems(1) this] obtain s1 where
    run: "calcKelem i job s = Inr s1" and inv: "asm_inv s1" and K: "Kelem s1 = element_matrix job i"
    by blast
  from Cons.prems have rest: "\<forall>i\<in>set is. valid_elem job i" by simp
  from Cons.IH [OF inv rest, of "ts @ elem_triplets job i"] run K show ?case
    by (simp add: Let_def elem_triplets_def)
qed

lemma sparseView_set: "(r, c, v) \<in> set (sparseView K) \<Longrightarrow> r < 12 \<and> c < 12"
  by (auto simp: sparseView_def)

lemma global_dof_less:
  "r < 12 \<Longrightarrow> n1 < n \<Longrightarrow> n2 < n \<Longrightarrow> global_dof n1 n2 r < 6 * n"
  by (auto simp: global_dof_def)

lemma elem_nodes_valid:
  assumes "valid_elem job i"
  shows "unat (fst (elems job ! i)) = elem_node1 job i" "unat (snd (elems job ! i)) = elem_node2 job i"
        "elem_node1 job i < length (nodes job)" "elem_node2 job i < length (nodes job)"
  using assms in_range_unat [of "fst (elems job ! i)" "nodes job"]
    in_range_unat [of "snd (elems job ! i)" "nodes job"]
  by (simp_all add: valid_elem_def elem_node1_def elem_node2_def)

lemma elem_scatter:
  assumes "valid_elem job i" and "6 * length (nodes job) < 2 ^ 31" and "r < 12" and "c < 12"
  shows "scatter (fst (elems job ! i)) (snd (elems job ! i)) (r, c, v) =
           (int (global_dof (elem_node1 job i) (elem_node2 job i) r),
            int (global_dof (elem_node1 job i) (elem_node2 job i) c), v)"
proof -
  note v = elem_nodes_valid [OF assms(1)]
  from v(3) assms(2) have b1: "6 * unat (fst (elems job ! i)) + 6 \<le> 2 ^ 31"
    unfolding v(1) by linarith
  from v(4) assms(2) have b2: "6 * unat (snd (elems job ! i)) + 6 \<le> 2 ^ 31"
    unfolding v(2) by linarith
  from scatter_global_dof [OF assms(3,4) b1 b2] show ?thesis by (simp only: v(1,2))
qed

lemma elem_triplets_below:
  assumes "valid_elem job i" and "6 * length (nodes job) < 2 ^ 31"
  shows "list_all (triplet_below (6 * length (nodes job))) (elem_triplets job i)"
proof -
  note v = elem_nodes_valid [OF assms(1)]
  have "triplet_below (6 * length (nodes job))
          (scatter (fst (elems job ! i)) (snd (elems job ! i)) e)"
    if "e \<in> set (sparseView (element_matrix job i))" for e
  proof -
    obtain r c x where e: "e = (r, c, x)" by (cases e) auto
    with that sparseView_set have rc: "r < 12" "c < 12" by blast+
    from global_dof_less [OF rc(1) v(3,4)] global_dof_less [OF rc(2) v(3,4)]
    show ?thesis
      unfolding e elem_scatter [OF assms rc] by (simp add: triplet_below_def)
  qed
  then show ?thesis by (simp add: elem_triplets_def list_all_iff)
qed

lemma elem_triplets_sum:
  assumes "valid_elem job i" and "6 * length (nodes job) < 2 ^ 31"
  shows "triplet_sum (elem_triplets job i) RC =
           elem_contribution (elem_node1 job i) (elem_node2 job i) (element_matrix job i) RC"
proof -
  note v = elem_nodes_valid [OF assms(1)]
  from v(3) assms(2) have b1: "6 * unat (fst (elems job ! i)) + 6 \<le> 2 ^ 31"
    unfolding v(1) by linarith
  from v(4) assms(2) have b2: "6 * unat (snd (elems job ! i)) + 6 \<le> 2 ^ 31"
    unfolding v(2) by linarith
  from sparseView_triplet_sum [OF b1 b2] show ?thesis
    by (simp only: elem_triplets_def v(1,2))
qed

lemma tie_triplets_below:
  assumes "unat (node_number_1 tie) < n" and "unat (node_number_2 tie) < n"
    and "6 * n < 2 ^ 31" and "j < 6"
  shows "list_all (triplet_below (6 * n)) (tie_triplets tie j)"
proof -
  have "\<exists>k. sint (6 * nn + of_nat j) = int k \<and> k < 6 * n"
    if "unat nn < n" for nn :: "32 word"
  proof -
    from that assms(4) have lt: "6 * unat nn + j < 6 * n" by simp
    with assms(3) have "6 * unat nn + j < 2 ^ 31" by linarith
    from sint_dof_index [OF this] lt show ?thesis by blast
  qed
  from this [OF assms(1)] this [OF assms(2)] obtain k1 k2 where
    "sint (6 * node_number_1 tie + of_nat j) = int k1" "k1 < 6 * n"
    "sint (6 * node_number_2 tie + of_nat j) = int k2" "k2 < 6 * n"
    by blast
  then show ?thesis
    by (simp add: tie_triplets_def Let_def triplet_below_def)
qed

lemma loadTies_below:
  assumes "\<forall>tie\<in>set ties. unat (node_number_1 tie) < n \<and> unat (node_number_2 tie) < n"
    and "6 * n < 2 ^ 31"
  shows "list_all (triplet_below (6 * n)) (loadTies [] ties)"
  using assms tie_triplets_below [where n = n]
  by (auto simp: loadTies_def list_all_iff)

lemma loadTies_append: "loadTies ts ties = ts @ loadTies [] ties"
  by (simp add: loadTies_def)

lemma assemble_result:
  assumes inv: "asm_inv s"
    and el: "\<forall>i<length (elems job). valid_elem job i"
    and ti: "\<forall>tie\<in>set ties. unat (node_number_1 tie) < length (nodes job) \<and>
                             unat (node_number_2 tie) < length (nodes job)"
    and bound: "6 * length (nodes job) < 2 ^ 31"
    and dims: "6 * length (nodes job) \<le> rows Kg" "6 * length (nodes job) \<le> cols Kg"
  shows "\<exists>s' Kg'. GlobalStiffAssembler_call s Kg job ties = Inr (s', Kg') \<and> asm_inv s' \<and>
           rows Kg' = rows Kg \<and> cols Kg' = cols Kg \<and>
           (\<forall>r c. coeffs Kg' (r, c) \<noteq> None \<longrightarrow>
                    r < 6 * length (nodes job) \<and> c < 6 * length (nodes job)) \<and>
           (\<forall>RC. coeff Kg' RC =
              (\<Sum>i<length (elems job).
                  elem_contribution (elem_node1 job i) (elem_node2 job i) (element_matrix job i) RC) +
              triplet_sum (loadTies [] ties) RC)"
proof -
  let ?n = "length (nodes job)" and ?is = "[0..<length (elems job)]"
  let ?ts = "concat (map (elem_triplets job) ?is) @ loadTies [] ties"
  from el have el': "\<forall>i\<in>set ?is. valid_elem job i" by simp
  from assemble_elems_total [OF inv el', of "[]"] obtain s' where
    loop: "assemble_elems ?is job (s, []) = Inr (s', concat (map (elem_triplets job) ?is))"
    and inv': "asm_inv s'" by auto
  have below: "list_all (triplet_below (6 * ?n)) ?ts"
    using el' elem_triplets_below [OF _ bound] loadTies_below [OF ti bound]
    by (auto simp: list_all_iff)
  have "triplet_in_range Kg t" if "triplet_below (6 * ?n) t" for t
    using that dims by (cases t) (auto simp: triplet_below_def triplet_in_range_def)
  with below have "list_all (triplet_in_range Kg) ?ts" by (auto simp: list_all_iff)
  then have set: "setFromTriplets ?ts Kg = Inr (Kg\<lparr>coeffs := fold add_triplet ?ts Map.empty\<rparr>)"
    by (simp add: setFromTriplets_def)
  let ?Kg' = "Kg\<lparr>coeffs := fold add_triplet ?ts Map.empty\<rparr>"
  have run: "GlobalStiffAssembler_call s Kg job ties = Inr (s', ?Kg')"
    using loop set by (simp add: GlobalStiffAssembler_call_def loadTies_append [of "concat _"])
  have keys: "r < 6 * ?n \<and> c < 6 * ?n" if "coeffs ?Kg' (r, c) \<noteq> None" for r c
  proof -
    from that have "fold add_triplet ?ts Map.empty (r, c) \<noteq> None" by simp
    from fold_add_triplet_keys [OF this] obtain t where t: "t \<in> set ?ts"
      and rc: "(nat (fst t), nat (fst (snd t))) = (r, c)" by auto
    from t below have "triplet_below (6 * ?n) t" by (simp add: list_all_iff)
    with rc show ?thesis by (cases t) (auto simp: triplet_below_def)
  qed
  have val: "coeff ?Kg' RC =
              (\<Sum>i<length (elems job).
                  elem_contribution (elem_node1 job i) (elem_node2 job i) (element_matrix job i) RC) +
              triplet_sum (loadTies [] ties) RC" for RC
  proof -
    have "coeff ?Kg' RC = triplet_sum ?ts RC"
      using setFromTriplets_Inr(3) [OF set] .
    also have "\<dots> = (\<Sum>i\<leftarrow>?is. triplet_sum (elem_triplets job i) RC) + triplet_sum (loadTies [] ties) RC"
      by (simp add: triplet_sum_append triplet_sum_concat)
    also have "(\<Sum>i\<leftarrow>?is. triplet_sum (elem_triplets job i) RC) =
               (\<Sum>i\<leftarrow>?is. elem_contribution (elem_node1 job i) (elem_node2 job i) (element_matrix job i) RC)"
      using el' by (intro arg_cong [where f = sum_list] map_cong refl elem_triplets_sum [OF _ bound]) simp
    also have "\<dots> = (\<Sum>i<length (elems job).
                  elem_contribution (elem_node1 job i) (elem_node2 job i) (element_matrix job i) RC)"
      by (simp only: interv_sum_list_conv_sum_set_nat set_upt atLeast0LessThan)
    finally show ?thesis .
  qed
  from run inv' keys val show ?thesis by auto
qed

text \<open>
  Claim C2. On a job whose elements respect the data model (they address nodes of the job,
  and axis and reference normal have a nonzero cross product) and whose ties address nodes
  of the job, with \<open>6 |nodes|\<close> within the matrix and below \<open>2^31\<close>, the assembler returns; the triplet pushed
  for the entry at local position \<open>(r, c)\<close> of element \<open>i\<close> with nodes \<open>(n1, n2)\<close> has row
  \<open>6 n1 + r\<close> for \<open>r < 6\<close> and \<open>6 n2 + (r - 6)\<close> otherwise, and its column likewise; and after
  \<^verbatim>\<open>setFromTriplets\<close> the coefficient at every global coordinate is the sum of the entries
  of all element matrices scattered to it, plus the sum of the tie triplets that land
  on it.
\<close>

theorem GlobalStiffAssembler_scatter_sum:
  assumes "asm_inv s"
    and "\<forall>i<length (elems job). valid_elem job i"
    and "\<forall>tie\<in>set ties. unat (node_number_1 tie) < length (nodes job) \<and>
                           unat (node_number_2 tie) < length (nodes job)"
    and "6 * length (nodes job) < 2 ^ 31"
    and "6 * length (nodes job) \<le> rows Kg" and "6 * length (nodes job) \<le> cols Kg"
  shows "\<exists>s' Kg'. GlobalStiffAssembler_call s Kg job ties = Inr (s', Kg') \<and>
           (\<forall>i<length (elems job). \<forall>r<12. \<forall>c<12. \<forall>v.
              scatter (fst (elems job ! i)) (snd (elems job ! i)) (r, c, v) =
                (int (global_dof (elem_node1 job i) (elem_node2 job i) r),
                 int (global_dof (elem_node1 job i) (elem_node2 job i) c), v)) \<and>
           (\<forall>R C. coeff Kg' (R, C) =
              (\<Sum>i<length (elems job).
                  elem_contribution (elem_node1 job i) (elem_node2 job i) (element_matrix job i) (R, C)) +
              triplet_sum (loadTies [] ties) (R, C))"
proof -
  from assemble_result [OF assms] obtain s' Kg' where
    run: "GlobalStiffAssembler_call s Kg job ties = Inr (s', Kg')" and
    val: "\<forall>RC. coeff Kg' RC =
              (\<Sum>i<length (elems job).
                  elem_contribution (elem_node1 job i) (elem_node2 job i) (element_matrix job i) RC) +
              triplet_sum (loadTies [] ties) RC"
    by blast
  have "scatter (fst (elems job ! i)) (snd (elems job ! i)) (r, c, v) =
                (int (global_dof (elem_node1 job i) (elem_node2 job i) r),
                 int (global_dof (elem_node1 job i) (elem_node2 job i) c), v)"
    if "i < length (elems job)" "r < 12" "c < 12" for i r c v
    using assms(2) that by (intro elem_scatter assms(4)) simp_all
  with run val show ?thesis by blast
qed

lemma valid_JOB_WEAK_TIES: "\<forall>i<length (elems JOB_WEAK_TIES). valid_elem JOB_WEAK_TIES i"
  by (simp add: JOB_WEAK_TIES_def valid_elem_def in_range_def less_Suc_eq numeral_2_eq_2)

text \<open>Witness for C2: the two-element job of the weak-tie test. Node 1 belongs to element 0
  and to the tie: the coefficient at (6, 6) is the entry (6, 6) of the element matrix plus
  the tie stiffness, and at (6, 12) only the tie contributes.\<close>

theorem GlobalStiffAssembler_scatter_sum_witness:
  "\<exists>s' Kg'. GlobalStiffAssembler_call GlobalStiffAssembler_new (SparseMat_new 24 24)
              JOB_WEAK_TIES TIES_WEAK = Inr (s', Kg') \<and>
     scatter 0 1 (7, 2, 5) = (7, 2, 5) \<and> scatter 2 3 (7, 2, 5) = (19, 14, 5) \<and>
     coeff Kg' (6, 6) = element_matrix JOB_WEAK_TIES 0 (6, 6) + 1 / 100 \<and>
     coeff Kg' (6, 12) = - (1 / 100)"
proof -
  from GlobalStiffAssembler_scatter_sum [OF asm_inv_new valid_JOB_WEAK_TIES,
      of TIES_WEAK "SparseMat_new 24 24"]
  obtain s' Kg' where
    run: "GlobalStiffAssembler_call GlobalStiffAssembler_new (SparseMat_new 24 24)
              JOB_WEAK_TIES TIES_WEAK = Inr (s', Kg')" and
    sc: "\<forall>i<length (elems JOB_WEAK_TIES). \<forall>r<12. \<forall>c<12. \<forall>v.
              scatter (fst (elems JOB_WEAK_TIES ! i)) (snd (elems JOB_WEAK_TIES ! i)) (r, c, v) =
                (int (global_dof (elem_node1 JOB_WEAK_TIES i) (elem_node2 JOB_WEAK_TIES i) r),
                 int (global_dof (elem_node1 JOB_WEAK_TIES i) (elem_node2 JOB_WEAK_TIES i) c), v)" and
    val: "\<forall>R C. coeff Kg' (R, C) =
              (\<Sum>i<length (elems JOB_WEAK_TIES).
                  elem_contribution (elem_node1 JOB_WEAK_TIES i) (elem_node2 JOB_WEAK_TIES i)
                    (element_matrix JOB_WEAK_TIES i) (R, C)) +
              triplet_sum (loadTies [] TIES_WEAK) (R, C)"
    by (auto simp: JOB_WEAK_TIES_def TIES_WEAK_def SparseMat_new_def)
  have n: "elem_node1 JOB_WEAK_TIES 0 = 0" "elem_node2 JOB_WEAK_TIES 0 = 1"
    "elem_node1 JOB_WEAK_TIES 1 = 2" "elem_node2 JOB_WEAK_TIES 1 = 3"
    by (simp_all add: JOB_WEAK_TIES_def elem_node1_def elem_node2_def)
  have l: "length (elems JOB_WEAK_TIES) = 2" by (simp add: JOB_WEAK_TIES_def)
  have e: "fst (elems JOB_WEAK_TIES ! 0) = 0" "snd (elems JOB_WEAK_TIES ! 0) = 1"
    "fst (elems JOB_WEAK_TIES ! 1) = 2" "snd (elems JOB_WEAK_TIES ! 1) = 3"
    by (simp_all add: JOB_WEAK_TIES_def)
  have s1: "scatter 0 1 (7, 2, 5) = (7, 2, 5)"
    using sc [rule_format, of 0 7 2 5] by (simp add: l e n global_dof_def)
  have s2: "scatter 2 3 (7, 2, 5) = (19, 14, 5)"
    using sc [rule_format, of 1 7 2 5] by (simp add: l e n global_dof_def del: One_nat_def)
  have t: "triplet_sum (loadTies [] TIES_WEAK) (6, 6) = 1 / 100"
    "triplet_sum (loadTies [] TIES_WEAK) (6, 12) = - (1 / 100)"
    by (simp_all add: loadTies_def TIES_WEAK_def tie_triplets_def triplet_sum_def Let_def upt_rec)
  have s: "(\<Sum>i<2. f i) = f 0 + f (1::nat)" for f :: "nat \<Rightarrow> real"
    by (simp add: numeral_2_eq_2)
  have c1: "coeff Kg' (6, 6) = element_matrix JOB_WEAK_TIES 0 (6, 6) + 1 / 100"
    unfolding val [rule_format] l s n t
    by (simp add: elem_contribution_def sum_lt12 global_dof_def)
  have c2: "coeff Kg' (6, 12) = - (1 / 100)"
    unfolding val [rule_format] l s n t
    by (simp add: elem_contribution_def sum_lt12 global_dof_def)
  from run s1 s2 c1 c2 show ?thesis by blast
qed

section \<open>Boundary conditions\<close>

lemma insert_coeff_Inr:
  "insert_coeff i j v m = Inr m' \<longleftrightarrow>
     i < rows m \<and> j < cols m \<and> coeffs m (i, j) = None \<and> m' = m\<lparr>coeffs := (coeffs m)((i, j) \<mapsto> v)\<rparr>"
  by (auto simp: insert_coeff_def)

lemma loadBCs_loop_frame:
  assumes "loadBCs_loop i g bcs (Kg, f) = Inr (Kg', f')"
  shows "rows Kg' = rows Kg \<and> cols Kg' = cols Kg \<and> rows f' = rows f \<and> cols f' = cols f \<and>
         (\<forall>r c. r < unat g + i \<and> c < unat g + i \<longrightarrow> coeffs Kg' (r, c) = coeffs Kg (r, c)) \<and>
         (\<forall>r c. r < unat g + i \<longrightarrow> coeffs f' (r, c) = coeffs f (r, c))"
  using assms
proof (induction bcs arbitrary: i Kg f)
  case Nil
  then show ?case by simp
next
  case (Cons bc bcs)
  let ?idx = "unat (6 * BC.node bc + BC.dof bc)" and ?row = "unat g + i"
  from Cons.prems obtain Kg1 Kg2 f1 where
    k1: "insert_coeff ?idx ?row 1 Kg = Inr Kg1" and
    k2: "insert_coeff ?row ?idx 1 Kg1 = Inr Kg2" and
    f1: "(if \<bar>BC.val bc\<bar> > DBL_EPSILON then insert_coeff ?row 0 (BC.val bc) f else Inr f) = Inr f1" and
    rest: "loadBCs_loop (i + 1) g bcs (Kg2, f1) = Inr (Kg', f')"
    by (auto simp: Let_def split: sum.splits)
  from k1 k2 have Kg2: "rows Kg2 = rows Kg" "cols Kg2 = cols Kg"
      "\<forall>r c. r < ?row \<and> c < ?row \<longrightarrow> coeffs Kg2 (r, c) = coeffs Kg (r, c)"
    by (auto simp: insert_coeff_Inr)
  from f1 have F1: "rows f1 = rows f" "cols f1 = cols f"
      "\<forall>r c. r < ?row \<longrightarrow> coeffs f1 (r, c) = coeffs f (r, c)"
    by (auto simp: insert_coeff_Inr split: if_splits)
  from Cons.IH [OF rest] Kg2 F1 show ?case by simp
qed

lemma loadBCs_loop_total:
  assumes valid: "\<forall>bc\<in>set bcs. bc_index bc < unat g"
    and dims: "unat g + i + length bcs \<le> rows Kg" "unat g + i + length bcs \<le> cols Kg"
              "unat g + i + length bcs \<le> rows f" "0 < cols f"
    and keys: "\<forall>r c. coeffs Kg (r, c) \<noteq> None \<longrightarrow> r < unat g + i \<and> c < unat g + i"
    and fkeys: "\<forall>r c. coeffs f (r, c) \<noteq> None \<longrightarrow> r < unat g + i"
  shows "\<exists>Kg' f'. loadBCs_loop i g bcs (Kg, f) = Inr (Kg', f') \<and>
           (\<forall>r c. coeffs Kg' (r, c) \<noteq> None \<longrightarrow>
                    r < unat g + i + length bcs \<and> c < unat g + i + length bcs) \<and>
           (\<forall>r c. coeffs f' (r, c) \<noteq> None \<longrightarrow> r < unat g + i + length bcs) \<and>
           (\<forall>k<length bcs.
              coeff Kg' (unat g + i + k, bc_index (bcs ! k)) = 1 \<and>
              coeff Kg' (bc_index (bcs ! k), unat g + i + k) = 1 \<and>
              coeff f' (unat g + i + k, 0) = bc_rhs (bcs ! k))"
  using assms
proof (induction bcs arbitrary: i Kg f)
  case Nil
  then show ?case by simp
next
  case (Cons bc bcs)
  let ?idx = "bc_index bc" and ?row = "unat g + i"
  from Cons.prems have idx: "?idx < unat g" by simp
  define Kg1 where "Kg1 = Kg\<lparr>coeffs := (coeffs Kg)((?idx, ?row) \<mapsto> 1)\<rparr>"
  define Kg2 where "Kg2 = Kg1\<lparr>coeffs := (coeffs Kg1)((?row, ?idx) \<mapsto> 1)\<rparr>"
  define f1 where "f1 = (if \<bar>BC.val bc\<bar> > DBL_EPSILON
                         then f\<lparr>coeffs := (coeffs f)((?row, 0) \<mapsto> BC.val bc)\<rparr> else f)"
  from Cons.prems(6) have fresh1: "coeffs Kg (?idx, ?row) = None"
    by (metis less_irrefl)
  from Cons.prems(6) idx have fresh2: "coeffs Kg1 (?row, ?idx) = None"
    unfolding Kg1_def by (auto dest: spec [of _ "?row"])
  from Cons.prems(7) have fresh3: "coeffs f (?row, 0) = None"
    by (metis less_irrefl)
  from Cons.prems(2,3) idx fresh1 have k1: "insert_coeff ?idx ?row 1 Kg = Inr Kg1"
    by (simp add: insert_coeff_Inr Kg1_def)
  from Cons.prems(2,3) idx fresh2 have k2: "insert_coeff ?row ?idx 1 Kg1 = Inr Kg2"
    by (simp add: insert_coeff_Inr Kg1_def Kg2_def)
  from Cons.prems(4,5) fresh3
  have k3: "(if \<bar>BC.val bc\<bar> > DBL_EPSILON then insert_coeff ?row 0 (BC.val bc) f else Inr f) = Inr f1"
    by (simp add: insert_coeff_Inr f1_def)
  have step: "loadBCs_loop i g (bc # bcs) (Kg, f) = loadBCs_loop (i + 1) g bcs (Kg2, f1)"
    using k1 k2 k3 by (simp add: bc_index_def Let_def)
  have keys2: "\<forall>r c. coeffs Kg2 (r, c) \<noteq> None \<longrightarrow> r < unat g + (i + 1) \<and> c < unat g + (i + 1)"
    using Cons.prems(6) idx unfolding Kg2_def Kg1_def by (auto simp: less_Suc_eq)
  have fkeys1: "\<forall>r c. coeffs f1 (r, c) \<noteq> None \<longrightarrow> r < unat g + (i + 1)"
    using Cons.prems(7) unfolding f1_def by (auto simp: less_Suc_eq)
  have dims2: "unat g + (i + 1) + length bcs \<le> rows Kg2" "unat g + (i + 1) + length bcs \<le> cols Kg2"
      "unat g + (i + 1) + length bcs \<le> rows f1" "0 < cols f1"
    using Cons.prems(2-5) by (simp_all add: Kg2_def Kg1_def f1_def)
  from Cons.prems(1) have valid': "\<forall>bc\<in>set bcs. bc_index bc < unat g" by simp
  from Cons.IH [OF valid' dims2 keys2 fkeys1] obtain Kg' f' where
    run: "loadBCs_loop (i + 1) g bcs (Kg2, f1) = Inr (Kg', f')" and
    K: "\<forall>r c. coeffs Kg' (r, c) \<noteq> None \<longrightarrow>
          r < unat g + (i + 1) + length bcs \<and> c < unat g + (i + 1) + length bcs" and
    F: "\<forall>r c. coeffs f' (r, c) \<noteq> None \<longrightarrow> r < unat g + (i + 1) + length bcs" and
    E: "\<forall>k<length bcs.
          coeff Kg' (unat g + (i + 1) + k, bc_index (bcs ! k)) = 1 \<and>
          coeff Kg' (bc_index (bcs ! k), unat g + (i + 1) + k) = 1 \<and>
          coeff f' (unat g + (i + 1) + k, 0) = bc_rhs (bcs ! k)"
    by blast
  note fr = loadBCs_loop_frame [OF run]
  from fr idx have "coeffs Kg' (?row, ?idx) = coeffs Kg2 (?row, ?idx)"
    and "coeffs Kg' (?idx, ?row) = coeffs Kg2 (?idx, ?row)"
    and "coeffs f' (?row, 0) = coeffs f1 (?row, 0)"
    by simp_all
  then have first: "coeff Kg' (?row, ?idx) = 1" "coeff Kg' (?idx, ?row) = 1"
      "coeff f' (?row, 0) = bc_rhs bc"
    using fresh3 by (simp_all add: coeff_def Kg2_def Kg1_def f1_def bc_rhs_def)
  have "coeff Kg' (unat g + i + k, bc_index ((bc # bcs) ! k)) = 1 \<and>
        coeff Kg' (bc_index ((bc # bcs) ! k), unat g + i + k) = 1 \<and>
        coeff f' (unat g + i + k, 0) = bc_rhs ((bc # bcs) ! k)" if "k < length (bc # bcs)" for k
  proof (cases k)
    case 0
    with first show ?thesis by simp
  next
    case (Suc k')
    with that E show ?thesis by simp
  qed
  with step run K F show ?case by simp
qed

lemma bc_index_valid:
  assumes "6 * nnodes < 2 ^ 32" and "unat (BC.node bc) < nnodes" and "unat (BC.dof bc) < 6"
  shows "bc_index bc = 6 * unat (BC.node bc) + unat (BC.dof bc)" and "bc_index bc < 6 * nnodes"
proof -
  from assms have b: "6 * unat (BC.node bc) + unat (BC.dof bc) < 6 * nnodes" by simp
  with assms(1) have "6 * unat (BC.node bc) + unat (BC.dof bc) < 2 ^ 32" by simp
  then show "bc_index bc = 6 * unat (BC.node bc) + unat (BC.dof bc)"
    unfolding bc_index_def by (rule unat_dof_index)
  with b show "bc_index bc < 6 * nnodes" by simp
qed

text \<open>
  Claim C6, amended. After \<^verbatim>\<open>loadBCs\<close>, for every boundary condition \<open>i\<close> addressing
  (node \<open>n\<close>, dof \<open>d\<close>, value \<open>v\<close>), with \<open>M = 6 |nodes|\<close>: \<open>Kg[M+i, 6n+d] = Kg[6n+d, M+i] = 1\<close>,
  and \<open>f[M+i] = v\<close> when \<open>|v|\<close> exceeds the machine epsilon, \<open>f[M+i] = 0\<close> otherwise.
  \<^verbatim>\<open>loadBCs\<close> returns for every list of boundary conditions that address nodes and degrees
  of freedom of the job, on matrices of order at least \<open>M + |BCs|\<close> that hold nothing
  outside the leading \<open>M\<close> by \<open>M\<close> block (rows below \<open>M\<close> for the force vector).
\<close>

theorem loadBCs_entries:
  assumes "6 * nnodes < 2 ^ 32"
    and "\<forall>bc\<in>set BCs. unat (BC.node bc) < nnodes \<and> unat (BC.dof bc) < 6"
    and "6 * nnodes + length BCs \<le> rows Kg" and "6 * nnodes + length BCs \<le> cols Kg"
    and "6 * nnodes + length BCs \<le> rows force_vec" and "0 < cols force_vec"
    and "\<forall>r c. coeffs Kg (r, c) \<noteq> None \<longrightarrow> r < 6 * nnodes \<and> c < 6 * nnodes"
    and "\<forall>r c. coeffs force_vec (r, c) \<noteq> None \<longrightarrow> r < 6 * nnodes"
  shows "\<exists>Kg' force_vec'. loadBCs Kg force_vec BCs nnodes = Inr (Kg', force_vec') \<and>
           (\<forall>i<length BCs.
              let n = unat (BC.node (BCs ! i)); d = unat (BC.dof (BCs ! i));
                  v = BC.val (BCs ! i); M = 6 * nnodes
              in coeff Kg' (M + i, 6 * n + d) = 1 \<and> coeff Kg' (6 * n + d, M + i) = 1 \<and>
                 coeff force_vec' (M + i, 0) = (if \<bar>v\<bar> > DBL_EPSILON then v else 0))"
proof -
  let ?g = "6 * of_nat nnodes :: 32 word"
  have g: "unat ?g = 6 * nnodes" using assms(1) by (rule unat_global_add_idx)
  have valid: "\<forall>bc\<in>set BCs. bc_index bc < unat ?g"
    using assms(2) unfolding g by (blast intro: bc_index_valid(2) [OF assms(1)])
  from loadBCs_loop_total [of BCs ?g 0 Kg force_vec, OF valid] assms(3-8)
  obtain Kg' f' where run: "loadBCs_loop 0 ?g BCs (Kg, force_vec) = Inr (Kg', f')"
    and E: "\<forall>k<length BCs.
              coeff Kg' (unat ?g + 0 + k, bc_index (BCs ! k)) = 1 \<and>
              coeff Kg' (bc_index (BCs ! k), unat ?g + 0 + k) = 1 \<and>
              coeff f' (unat ?g + 0 + k, 0) = bc_rhs (BCs ! k)"
    unfolding g by auto
  have "coeff Kg' (6 * nnodes + i, 6 * unat (BC.node (BCs ! i)) + unat (BC.dof (BCs ! i))) = 1 \<and>
        coeff Kg' (6 * unat (BC.node (BCs ! i)) + unat (BC.dof (BCs ! i)), 6 * nnodes + i) = 1 \<and>
        coeff f' (6 * nnodes + i, 0) =
          (if \<bar>BC.val (BCs ! i)\<bar> > DBL_EPSILON then BC.val (BCs ! i) else 0)"
    if "i < length BCs" for i
  proof -
    from that assms(2) have "unat (BC.node (BCs ! i)) < nnodes" "unat (BC.dof (BCs ! i)) < 6"
      by simp_all
    from bc_index_valid(1) [OF assms(1) this] E [rule_format, OF that] show ?thesis
      by (simp add: g bc_rhs_def)
  qed
  with run show ?thesis by (simp add: loadBCs_def Let_def)
qed

text \<open>Witness for C6: the eight boundary conditions of the cantilever test on empty
  matrices of order 20; condition 6 prescribes 0.1 at node 1, condition 0 prescribes 0.\<close>

theorem loadBCs_entries_witness:
  "\<exists>Kg' force_vec'.
     loadBCs (SparseMat_new 20 20) (SparseMat_new 20 1) BCS_TIP_FORCES 2 = Inr (Kg', force_vec') \<and>
     coeff Kg' (18, 6) = 1 \<and> coeff Kg' (6, 18) = 1 \<and> coeff force_vec' (18, 0) = 1 / 10 \<and>
     coeff Kg' (12, 0) = 1 \<and> coeff Kg' (0, 12) = 1 \<and> coeff force_vec' (12, 0) = 0"
proof -
  from loadBCs_entries [of 2 BCS_TIP_FORCES "SparseMat_new 20 20" "SparseMat_new 20 1"]
  obtain Kg' f' where
    run: "loadBCs (SparseMat_new 20 20) (SparseMat_new 20 1) BCS_TIP_FORCES 2 = Inr (Kg', f')" and
    E: "\<forall>i<length BCS_TIP_FORCES.
              let n = unat (BC.node (BCS_TIP_FORCES ! i)); d = unat (BC.dof (BCS_TIP_FORCES ! i));
                  v = BC.val (BCS_TIP_FORCES ! i); M = 6 * 2
              in coeff Kg' (M + i, 6 * n + d) = 1 \<and> coeff Kg' (6 * n + d, M + i) = 1 \<and>
                 coeff f' (M + i, 0) = (if \<bar>v\<bar> > DBL_EPSILON then v else 0)"
    by (auto simp: BCS_TIP_FORCES_def SparseMat_new_def)
  from E [rule_format, of 6] E [rule_format, of 0] run show ?thesis
    by (simp add: BCS_TIP_FORCES_def Let_def DBL_EPSILON_def)
qed

text \<open>
  Counterexample to C6 as stated: the prescribed value \<open>2^-53\<close> is not zero and not above
  the machine epsilon; \<^verbatim>\<open>loadBCs\<close> stores the two unit coefficients and leaves the force
  vector empty, so that \<open>f[M+0]\<close> reads 0 and not \<open>2^-53\<close>.
\<close>

theorem loadBCs_tiny_value_dropped:
  "loadBCs (SparseMat_new 7 7) (SparseMat_new 7 1) [BC_TINY] 1 =
     Inr (\<lparr>rows = 7, cols = 7, coeffs = [(0, 6) \<mapsto> 1, (6, 0) \<mapsto> 1]\<rparr>, SparseMat_new 7 1) \<and>
   coeff (SparseMat_new 7 1) (6, 0) = 0 \<and> 0 < \<bar>BC.val BC_TINY\<bar> \<and> \<bar>BC.val BC_TINY\<bar> \<le> DBL_EPSILON \<and>
   coeff (SparseMat_new 7 1) (6, 0) \<noteq> BC.val BC_TINY"
  by (simp add: loadBCs_def BC_TINY_def SparseMat_new_def insert_coeff_def DBL_EPSILON_def
      coeff_def Let_def)

text \<open>
  Claim C10. Every coefficient that \<^verbatim>\<open>loadBCs\<close> inserts has its row or its column at least
  \<open>6 |nodes|\<close>: for every list of boundary conditions on which it returns, the leading
  \<open>6 |nodes|\<close> by \<open>6 |nodes|\<close> block of the global stiffness matrix is unchanged, and so is the
  product of that block with any vector, which is what \<^verbatim>\<open>solve\<close> computes for the
  reaction forces.
\<close>

theorem loadBCs_frame:
  assumes "6 * nnodes < 2 ^ 32"
    and "loadBCs Kg force_vec BCs nnodes = Inr (Kg', force_vec')"
  shows "(\<forall>r c. coeffs Kg' (r, c) \<noteq> coeffs Kg (r, c) \<longrightarrow> 6 * nnodes \<le> r \<or> 6 * nnodes \<le> c) \<and>
         topLeftCorner Kg' (6 * nnodes) (6 * nnodes) = topLeftCorner Kg (6 * nnodes) (6 * nnodes) \<and>
         (\<forall>x. sparse_times (topLeftCorner Kg' (6 * nnodes) (6 * nnodes)) x =
              sparse_times (topLeftCorner Kg (6 * nnodes) (6 * nnodes)) x)"
proof -
  let ?g = "6 * of_nat nnodes :: 32 word"
  have g: "unat ?g = 6 * nnodes" using assms(1) by (rule unat_global_add_idx)
  from assms(2) have "loadBCs_loop 0 ?g BCs (Kg, force_vec) = Inr (Kg', force_vec')"
    by (simp add: loadBCs_def Let_def)
  from loadBCs_loop_frame [OF this]
  have fr: "\<forall>r c. r < 6 * nnodes \<and> c < 6 * nnodes \<longrightarrow> coeffs Kg' (r, c) = coeffs Kg (r, c)"
    by (simp add: g)
  then have "\<forall>r c. coeffs Kg' (r, c) \<noteq> coeffs Kg (r, c) \<longrightarrow> 6 * nnodes \<le> r \<or> 6 * nnodes \<le> c"
    by (meson not_le)
  moreover from fr have "topLeftCorner Kg' (6 * nnodes) (6 * nnodes) =
         topLeftCorner Kg (6 * nnodes) (6 * nnodes)"
    by (auto simp: topLeftCorner_def)
  ultimately show ?thesis by simp
qed

text \<open>Witness for C10: the eight boundary conditions of the cantilever on a matrix that
  holds 5 at (0, 0).\<close>

theorem loadBCs_frame_witness:
  "\<exists>Kg' force_vec'.
     loadBCs KG_ONE_ENTRY (SparseMat_new 20 1) BCS_TIP_FORCES 2 = Inr (Kg', force_vec') \<and>
     topLeftCorner Kg' 12 12 = topLeftCorner KG_ONE_ENTRY 12 12 \<and>
     coeff Kg' (0, 0) = 5"
proof -
  let ?g = "6 * of_nat 2 :: 32 word"
  have g: "unat ?g = 12" by simp
  have v: "\<forall>bc\<in>set BCS_TIP_FORCES. bc_index bc < unat ?g"
    by (simp add: BCS_TIP_FORCES_def bc_index_def)
  have d: "unat ?g + 0 + length BCS_TIP_FORCES \<le> rows KG_ONE_ENTRY"
    "unat ?g + 0 + length BCS_TIP_FORCES \<le> cols KG_ONE_ENTRY"
    "unat ?g + 0 + length BCS_TIP_FORCES \<le> rows (SparseMat_new 20 1)"
    "0 < cols (SparseMat_new 20 1)"
    by (simp_all add: BCS_TIP_FORCES_def KG_ONE_ENTRY_def SparseMat_new_def)
  have k: "\<forall>r c. coeffs KG_ONE_ENTRY (r, c) \<noteq> None \<longrightarrow> r < unat ?g + 0 \<and> c < unat ?g + 0"
    "\<forall>r c. coeffs (SparseMat_new 20 1) (r, c) \<noteq> None \<longrightarrow> r < unat ?g + 0"
    by (auto simp: KG_ONE_ENTRY_def SparseMat_new_def split: if_splits)
  from loadBCs_loop_total [OF v d k]
  have "\<exists>Kg' f'. loadBCs_loop 0 ?g BCS_TIP_FORCES (KG_ONE_ENTRY, SparseMat_new 20 1) = Inr (Kg', f')"
    by blast
  then obtain Kg' f' where
    run: "loadBCs KG_ONE_ENTRY (SparseMat_new 20 1) BCS_TIP_FORCES 2 = Inr (Kg', f')"
    by (auto simp: loadBCs_def Let_def)
  from loadBCs_frame [of 2, OF _ run]
  have tl: "topLeftCorner Kg' 12 12 = topLeftCorner KG_ONE_ENTRY 12 12" by simp
  then have "coeffs (topLeftCorner Kg' 12 12) (0, 0) = coeffs (topLeftCorner KG_ONE_ENTRY 12 12) (0, 0)"
    by simp
  then have "coeff Kg' (0, 0) = 5"
    by (simp add: topLeftCorner_def coeff_def KG_ONE_ENTRY_def)
  with run tl show ?thesis by blast
qed

section \<open>Forces\<close>

lemma loadForces_total:
  assumes "distinct (map force_index fs)"
    and "\<forall>f\<in>set fs. force_index f < rows fv" and "0 < cols fv"
    and "\<forall>f\<in>set fs. coeffs fv (force_index f, 0) = None"
  shows "\<exists>fv'. loadForces fv fs = Inr fv' \<and> rows fv' = rows fv \<and> cols fv' = cols fv \<and>
           (\<forall>f\<in>set fs. coeff fv' (force_index f, 0) = Force.val f) \<and>
           (\<forall>rc. rc \<notin> (\<lambda>f. (force_index f, 0)) ` set fs \<longrightarrow> coeffs fv' rc = coeffs fv rc)"
  using assms
proof (induction fs arbitrary: fv)
  case Nil
  then show ?case by simp
next
  case (Cons f fs)
  let ?fv1 = "fv\<lparr>coeffs := (coeffs fv)((force_index f, 0) \<mapsto> Force.val f)\<rparr>"
  from Cons.prems have ins: "insert_coeff (force_index f) 0 (Force.val f) fv = Inr ?fv1"
    by (simp add: insert_coeff_Inr)
  from Cons.prems have d: "distinct (map force_index fs)" and nf: "force_index f \<notin> force_index ` set fs"
    by simp_all
  from Cons.prems have r: "\<forall>g\<in>set fs. force_index g < rows ?fv1" and c: "0 < cols ?fv1" by simp_all
  from Cons.prems nf have fresh: "\<forall>g\<in>set fs. coeffs ?fv1 (force_index g, 0) = None"
    by (auto simp: image_iff)
  from Cons.IH [OF d r c fresh] obtain fv' where
    run: "loadForces ?fv1 fs = Inr fv'" and dims: "rows fv' = rows fv" "cols fv' = cols fv" and
    vals: "\<forall>g\<in>set fs. coeff fv' (force_index g, 0) = Force.val g" and
    frame: "\<forall>rc. rc \<notin> (\<lambda>f. (force_index f, 0)) ` set fs \<longrightarrow> coeffs fv' rc = coeffs ?fv1 rc"
    by auto
  from nf have "(force_index f, 0) \<notin> (\<lambda>f. (force_index f, 0)) ` set fs" by auto
  with frame have "coeffs fv' (force_index f, 0) = coeffs ?fv1 (force_index f, 0)" by blast
  then have "coeff fv' (force_index f, 0) = Force.val f" by (simp add: coeff_def)
  moreover have "loadForces fv (f # fs) = Inr fv'"
    using ins run by (simp add: force_index_def Let_def)
  moreover from frame
  have "\<forall>rc. rc \<notin> (\<lambda>f. (force_index f, 0)) ` set (f # fs) \<longrightarrow> coeffs fv' rc = coeffs fv rc"
    by auto
  ultimately show ?case using dims vals by simp
qed

lemma loadForces_duplicate:
  assumes "\<forall>f\<in>set fs. force_index f < rows fv" and "0 < cols fv"
    and "\<not> distinct (map force_index fs) \<or> (\<exists>f\<in>set fs. coeffs fv (force_index f, 0) \<noteq> None)"
  shows "loadForces fv fs = Inl InsertExisting"
  using assms
proof (induction fs arbitrary: fv)
  case Nil
  then show ?case by simp
next
  case (Cons f fs)
  show ?case
  proof (cases "coeffs fv (force_index f, 0) = None")
    case False
    with Cons.prems(1,2) have "insert_coeff (force_index f) 0 (Force.val f) fv = Inl InsertExisting"
      by (simp add: insert_coeff_def)
    then show ?thesis by (simp add: force_index_def Let_def)
  next
    case True
    let ?fv1 = "fv\<lparr>coeffs := (coeffs fv)((force_index f, 0) \<mapsto> Force.val f)\<rparr>"
    from True Cons.prems(1,2) have ins: "insert_coeff (force_index f) 0 (Force.val f) fv = Inr ?fv1"
      by (simp add: insert_coeff_Inr)
    from Cons.prems(1,2) have r: "\<forall>g\<in>set fs. force_index g < rows ?fv1" and c: "0 < cols ?fv1"
      by simp_all
    from Cons.prems(3) True
    have "\<not> distinct (map force_index fs) \<or> (\<exists>g\<in>set fs. coeffs ?fv1 (force_index g, 0) \<noteq> None)"
      by auto
    from Cons.IH [OF r c this] ins show ?thesis
      by (simp add: force_index_def Let_def)
  qed
qed

lemma force_index_valid:
  assumes "6 * nnodes < 2 ^ 32" and "unat (Force.node f) < nnodes" and "unat (Force.dof f) < 6"
  shows "force_index f = 6 * unat (Force.node f) + unat (Force.dof f)" and "force_index f < 6 * nnodes"
proof -
  from assms have b: "6 * unat (Force.node f) + unat (Force.dof f) < 6 * nnodes" by simp
  with assms(1) have "6 * unat (Force.node f) + unat (Force.dof f) < 2 ^ 32" by simp
  then show "force_index f = 6 * unat (Force.node f) + unat (Force.dof f)"
    unfolding force_index_def by (rule unat_dof_index)
  with b show "force_index f < 6 * nnodes" by simp
qed

text \<open>
  Claim C9 says that \<^verbatim>\<open>loadForces\<close> completes on a list with two forces on the same
  (node, dof) and leaves the last value. The second \<^verbatim>\<open>force_vec.insert(idx, 0)\<close> addresses a
  coefficient that is already stored, which breaks the precondition of \<^verbatim>\<open>insert\<close>: on the
  forces (1, 1, 0.1), (1, 1, 0.2) the model stops with \<open>InsertExisting\<close>.
\<close>

theorem loadForces_duplicate_insert:
  "loadForces (SparseMat_new 12 1) FORCES_DUPLICATE = Inl InsertExisting"
  by (simp add: FORCES_DUPLICATE_def SparseMat_new_def insert_coeff_def Let_def)

section \<open>The solve entry point\<close>

lemma system_size_eq:
  assumes "6 * length (nodes job) + length BCs < 2 ^ 31"
  shows "system_size job BCs = int (6 * length (nodes job) + length BCs)"
proof -
  let ?k = "6 * length (nodes job) + length BCs"
  have le: "(2::nat) ^ 31 \<le> 2 ^ 32" by simp
  with assms have k: "?k < 2 ^ 32" by linarith
  have "unat (of_nat ?k :: 32 word) = ?k mod 2 ^ LENGTH(32)" by (rule unat_of_nat)
  also have "\<dots> = ?k" using k by simp
  finally have ui: "uint (of_nat ?k :: 32 word) = int ?k"
    by (metis of_nat_unat)
  from assms have "int ?k < int (2 ^ 31)" by (simp only: of_nat_less_iff)
  then have "uint (of_nat ?k :: 32 word) < 2 ^ 31" unfolding ui by simp
  then have "sint (of_nat ?k :: 32 word) = uint (of_nat ?k :: 32 word)"
    by (rule sint_eq_uint_small)
  with ui show ?thesis by (simp only: system_size_def)
qed

lemma load_steps_total:
  assumes "valid_input job BCs forces ties"
    and large: "6 * length (nodes job) + length BCs \<le> N"
  defines "M \<equiv> 6 * length (nodes job)"
  shows "\<exists>s' Kphys Kg f1 fv.
           GlobalStiffAssembler_call GlobalStiffAssembler_new (SparseMat_new N N) job ties
             = Inr (s', Kphys) \<and>
           loadBCs Kphys (SparseMat_new N 1) BCs (length (nodes job)) = Inr (Kg, f1) \<and>
           (if length forces > 0 then loadForces f1 forces else Inr f1) = Inr fv \<and>
           rows Kg = N \<and> cols Kg = N \<and> rows fv = N \<and> cols fv = 1 \<and>
           topLeftCorner Kg M M = topLeftCorner Kphys M M \<and>
           (\<forall>i<length BCs.
              coeff Kg (M + i, bc_index (BCs ! i)) = 1 \<and> coeff Kg (bc_index (BCs ! i), M + i) = 1 \<and>
              coeff fv (M + i, 0) = bc_rhs (BCs ! i)) \<and>
           (\<forall>f\<in>set forces. coeff fv (force_index f, 0) = Force.val f) \<and>
           (\<forall>k. M + length BCs \<le> k \<longrightarrow> coeffs fv (k, 0) = None)"
proof -
  let ?n = "length (nodes job)"
  from assms(1) have el: "\<forall>i<length (elems job). valid_elem job i"
    and ti: "\<forall>tie\<in>set ties. unat (node_number_1 tie) < ?n \<and> unat (node_number_2 tie) < ?n"
    and bc: "\<forall>bc\<in>set BCs. unat (BC.node bc) < ?n \<and> unat (BC.dof bc) < 6"
    and fo: "\<forall>f\<in>set forces. unat (Force.node f) < ?n \<and> unat (Force.dof f) < 6"
    and di: "distinct (map force_index forces)"
    and bound: "6 * ?n + length BCs < 2 ^ 31"
    by (simp_all add: valid_input_def)
  have le: "(2::nat) ^ 31 \<le> 2 ^ 32" by simp
  from bound have b31: "6 * ?n < 2 ^ 31" by linarith
  with le have b32: "6 * ?n < 2 ^ 32" by linarith
  let ?Kg0 = "SparseMat_new N N" and ?f0 = "SparseMat_new N 1"
  have dims0: "6 * ?n \<le> rows ?Kg0" "6 * ?n \<le> cols ?Kg0"
    using large by (simp_all add: SparseMat_new_def)
  from assemble_result [OF asm_inv_new el ti b31 dims0] obtain s' Kphys where
    asm: "GlobalStiffAssembler_call GlobalStiffAssembler_new ?Kg0 job ties = Inr (s', Kphys)"
    and d1: "rows Kphys = N" "cols Kphys = N"
    and keys: "\<forall>r c. coeffs Kphys (r, c) \<noteq> None \<longrightarrow> r < 6 * ?n \<and> c < 6 * ?n"
    by (auto simp: SparseMat_new_def)
  let ?g = "6 * of_nat ?n :: 32 word"
  have g: "unat ?g = 6 * ?n" using b32 by (rule unat_global_add_idx)
  have valid: "\<forall>bc\<in>set BCs. bc_index bc < unat ?g"
    using bc unfolding g by (blast intro: bc_index_valid(2) [OF b32])
  have "\<exists>Kg' f'. loadBCs_loop 0 ?g BCs (Kphys, ?f0) = Inr (Kg', f') \<and>
           (\<forall>r c. coeffs f' (r, c) \<noteq> None \<longrightarrow> r < unat ?g + 0 + length BCs) \<and>
           (\<forall>k<length BCs.
              coeff Kg' (unat ?g + 0 + k, bc_index (BCs ! k)) = 1 \<and>
              coeff Kg' (bc_index (BCs ! k), unat ?g + 0 + k) = 1 \<and>
              coeff f' (unat ?g + 0 + k, 0) = bc_rhs (BCs ! k))"
    using loadBCs_loop_total [of BCs ?g 0 Kphys ?f0, OF valid] keys d1 large
    unfolding g by (auto simp: SparseMat_new_def)
  then obtain Kg f1 where
    loop: "loadBCs_loop 0 ?g BCs (Kphys, ?f0) = Inr (Kg, f1)" and
    f1keys: "\<forall>r c. coeffs f1 (r, c) \<noteq> None \<longrightarrow> r < M + length BCs" and
    E: "\<forall>k<length BCs.
              coeff Kg (M + k, bc_index (BCs ! k)) = 1 \<and>
              coeff Kg (bc_index (BCs ! k), M + k) = 1 \<and>
              coeff f1 (M + k, 0) = bc_rhs (BCs ! k)"
    unfolding g M_def by auto
  note fr = loadBCs_loop_frame [OF loop, unfolded g]
  from fr d1 have d2: "rows Kg = N" "cols Kg = N" "rows f1 = N" "cols f1 = 1"
    by (simp_all add: SparseMat_new_def)
  from fr have tl: "topLeftCorner Kg M M = topLeftCorner Kphys M M"
    by (auto simp: topLeftCorner_def M_def)
  from fr have f1low: "\<forall>r c. r < M \<longrightarrow> coeffs f1 (r, c) = None"
    by (simp add: SparseMat_new_def M_def)
  have bcs: "loadBCs Kphys ?f0 BCs ?n = Inr (Kg, f1)"
    using loop by (simp add: loadBCs_def Let_def)
  have fidx: "\<forall>f\<in>set forces. force_index f < M"
    using fo unfolding M_def by (blast intro: force_index_valid(2) [OF b32])
  have "\<exists>fv. (if length forces > 0 then loadForces f1 forces else Inr f1) = Inr fv \<and>
          rows fv = N \<and> cols fv = 1 \<and>
          (\<forall>f\<in>set forces. coeff fv (force_index f, 0) = Force.val f) \<and>
          (\<forall>rc. rc \<notin> (\<lambda>f. (force_index f, 0)) ` set forces \<longrightarrow> coeffs fv rc = coeffs f1 rc)"
  proof (cases "forces = []")
    case True
    with d2 show ?thesis by simp
  next
    case False
    have r: "\<forall>f\<in>set forces. force_index f < rows f1"
      using fidx d2 large by (auto simp: M_def)
    have c: "0 < cols f1" using d2 by simp
    have fresh: "\<forall>f\<in>set forces. coeffs f1 (force_index f, 0) = None"
      using fidx f1low by blast
    from loadForces_total [OF di r c fresh] False d2 show ?thesis by auto
  qed
  then obtain fv where
    lf: "(if length forces > 0 then loadForces f1 forces else Inr f1) = Inr fv" and
    d3: "rows fv = N" "cols fv = 1" and
    fvals: "\<forall>f\<in>set forces. coeff fv (force_index f, 0) = Force.val f" and
    ffr: "\<forall>rc. rc \<notin> (\<lambda>f. (force_index f, 0)) ` set forces \<longrightarrow> coeffs fv rc = coeffs f1 rc"
    by blast
  have same: "coeffs fv (M + k, 0) = coeffs f1 (M + k, 0)" for k
  proof -
    from fidx have "(M + k, 0) \<notin> (\<lambda>f. (force_index f, 0)) ` set forces" by auto
    with ffr show ?thesis by blast
  qed
  then have "coeff fv (M + k, 0) = coeff f1 (M + k, 0)" for k
    by (simp add: coeff_def)
  with E have E': "\<forall>k<length BCs.
              coeff Kg (M + k, bc_index (BCs ! k)) = 1 \<and>
              coeff Kg (bc_index (BCs ! k), M + k) = 1 \<and>
              coeff fv (M + k, 0) = bc_rhs (BCs ! k)"
    by simp
  have tail: "\<forall>k. M + length BCs \<le> k \<longrightarrow> coeffs fv (k, 0) = None"
  proof (intro allI impI)
    fix k assume k: "M + length BCs \<le> k"
    then have "k = M + (k - M)" by simp
    with same [of "k - M"] have "coeffs fv (k, 0) = coeffs f1 (k, 0)" by simp
    moreover from f1keys k have "coeffs f1 (k, 0) = None" by (meson not_le)
    ultimately show "coeffs fv (k, 0) = None" by simp
  qed
  from asm bcs lf d2 d3 tl E' fvals tail show ?thesis by blast
qed

lemma build_system_total:
  assumes "valid_input job BCs forces ties"
  defines "M \<equiv> 6 * length (nodes job)" and "N \<equiv> 6 * length (nodes job) + length BCs"
  shows "\<exists>s' Kphys Kg fv.
           GlobalStiffAssembler_call GlobalStiffAssembler_new (SparseMat_new N N) job ties
             = Inr (s', Kphys) \<and>
           build_system job BCs forces ties = Inr (Kg, fv) \<and>
           rows Kg = N \<and> cols Kg = N \<and> rows fv = N \<and> cols fv = 1 \<and>
           topLeftCorner Kg M M = topLeftCorner Kphys M M \<and>
           (\<forall>i<length BCs.
              coeff Kg (M + i, bc_index (BCs ! i)) = 1 \<and> coeff Kg (bc_index (BCs ! i), M + i) = 1 \<and>
              coeff fv (M + i, 0) = bc_rhs (BCs ! i)) \<and>
           (\<forall>f\<in>set forces. coeff fv (force_index f, 0) = Force.val f)"
proof -
  from assms(1) have "N < 2 ^ 31" by (simp add: valid_input_def N_def)
  then have size: "system_size job BCs = int N"
    unfolding N_def by (rule system_size_eq)
  from load_steps_total [OF assms(1), of N] obtain s' Kphys Kg f1 fv where
    asm: "GlobalStiffAssembler_call GlobalStiffAssembler_new (SparseMat_new N N) job ties
             = Inr (s', Kphys)" and
    bcs: "loadBCs Kphys (SparseMat_new N 1) BCs (length (nodes job)) = Inr (Kg, f1)" and
    lf: "(if length forces > 0 then loadForces f1 forces else Inr f1) = Inr fv" and
    rest: "rows Kg = N" "cols Kg = N" "rows fv = N" "cols fv = 1"
      "topLeftCorner Kg M M = topLeftCorner Kphys M M"
      "\<forall>i<length BCs.
              coeff Kg (M + i, bc_index (BCs ! i)) = 1 \<and> coeff Kg (bc_index (BCs ! i), M + i) = 1 \<and>
              coeff fv (M + i, 0) = bc_rhs (BCs ! i)"
      "\<forall>f\<in>set forces. coeff fv (force_index f, 0) = Force.val f"
    unfolding N_def M_def by auto
  have "build_system job BCs forces ties = Inr (Kg, fv)"
    unfolding build_system_def size using asm bcs lf by (simp add: Let_def)
  with asm rest show ?thesis by blast
qed

lemma valid_JOB_CANTILEVER: "valid_input JOB_CANTILEVER BCS_TIP_FORCES [] []"
  by (simp add: valid_input_def JOB_CANTILEVER_def BCS_TIP_FORCES_def valid_elem_def in_range_def)

lemma solve_result:
  assumes valid: "valid_input job BCs forces ties"
    and out: "outputs_ok can_open options job"
    and build: "build_system job BCs forces ties = Inr (Kg, force_vec)"
    and lu: "solver Kg force_vec = Some x"
  shows "\<exists>tf. solve solver can_open job BCs forces ties options =
           Inr \<lparr>num_nodes = length (nodes job), num_elems = length (elems job),
                num_bcs = length BCs, num_forces = 0, num_ties = length ties, num_eqns = 0,
                nodal_displacements =
                  map (\<lambda>i. map (\<lambda>j. round_eps (epsilon options) (x (6 * i + j))) [0..<6])
                      [0..<length (nodes job)],
                nodal_forces =
                  map (\<lambda>i. map (\<lambda>j. round_eps (epsilon options)
                        (sparse_times (topLeftCorner Kg (6 * length (nodes job))
                           (6 * length (nodes job))) x (6 * i + j))) [0..<6])
                      [0..<length (nodes job)],
                tie_forces = tf\<rparr>"
proof -
  let ?n = "length (nodes job)"
  let ?disp_vec = "map (\<lambda>i. map (\<lambda>j. round_eps (epsilon options) (x (6 * i + j))) [0..<6]) [0..<?n]"
  from valid have ti: "\<forall>tie\<in>set ties. unat (node_number_1 tie) < ?n \<and> unat (node_number_2 tie) < ?n"
    by (simp add: valid_input_def)
  then have "\<exists>tf. computeTieForces ties ?disp_vec = Inr tf"
    by (auto simp: computeTieForces_def)
  then obtain tf where tf: "(if length ties > 0 then computeTieForces ties ?disp_vec else Inr []) = Inr tf"
    by (cases "ties = []") auto
  have sf: "save_files can_open options
              \<lparr>num_nodes = a, num_elems = b, num_bcs = c, num_forces = d, num_ties = e, num_eqns = f,
               nodal_displacements = ?disp_vec, nodal_forces = nf, tie_forces = tf\<rparr> = None"
    for a b c d e f nf
    using out by (auto simp: save_files_def outputs_ok_def)
  from build_system_total [OF valid] build
  have dims: "6 * ?n \<le> rows Kg" "6 * ?n \<le> cols Kg" by auto
  show ?thesis
    unfolding solve_def using build lu tf sf dims by (simp add: Let_def)
qed

lemma sparse_times_topLeftCorner:
  "r < m \<Longrightarrow> sparse_times (topLeftCorner K m m) x r = (\<Sum>c<m. coeff K (r, c) * x c)"
  by (simp add: sparse_times_def topLeftCorner_def coeff_def)

lemma elem_contribution_first_nodes:
  "elem_contribution 0 (Suc 0) K (R, C) = (if R < 12 \<and> C < 12 then K (R, C) else 0)"
proof -
  have g: "global_dof 0 (Suc 0) r = r" if "r < 12" for r
    using that by (simp add: global_dof_def)
  have "elem_contribution 0 (Suc 0) K (R, C) =
        (\<Sum>r<12. \<Sum>c<12. if r = R \<and> c = C then K (r, c) else 0)"
    unfolding elem_contribution_def
    by (rule sum.cong [OF refl], rule sum.cong [OF refl]) (simp add: g)
  also have "\<dots> = (\<Sum>r<12. if r = R then (\<Sum>c<12. if c = C then K (R, c) else 0) else 0)"
    by (intro sum.cong refl) auto
  also have "\<dots> = (if R < 12 then (\<Sum>c<12. if c = C then K (R, c) else 0) else 0)"
    by (simp add: sum.delta)
  also have "\<dots> = (if R < 12 \<and> C < 12 then K (R, C) else 0)"
    by (simp add: sum.delta)
  finally show ?thesis .
qed

text \<open>The element matrix of the cantilever of the test suite, and with it the matrix
  that the assembler builds for the cantilever: the rotation by the reference normal
  (0, 0, 1) maps the local stiffness matrix with \<open>EIy = EIz\<close> to itself.\<close>

lemma cantilever_element_matrix:
  assumes "r < 12" and "c < 12"
  shows "element_matrix JOB_CANTILEVER 0 (r, c) = beam_stiffness 1 1 12 6 1 12 6 1 (r, c)"
proof -
  have v: "valid_elem JOB_CANTILEVER 0"
    by (simp add: valid_elem_def JOB_CANTILEVER_def in_range_def)
  have A: "elem_Aelem JOB_CANTILEVER 0 = rotation_matrix (1, 0, 0) (0, 0, 1) (0, - 1, 0)"
    by (simp add: elem_Aelem_def JOB_CANTILEVER_def normalized_def Let_def)
  have K: "elem_Klocal JOB_CANTILEVER 0 = beam_stiffness 1 1 12 6 1 12 6 1"
    by (simp add: elem_Klocal_def JOB_CANTILEVER_def elem_length_def norm_nodes_def vnorm_def Let_def)
  have E: "element_matrix JOB_CANTILEVER 0 =
        mat_mul (mat_mul (mat_transpose (rotation_matrix (1, 0, 0) (0, 0, 1) (0, - 1, 0)))
          (beam_stiffness 1 1 12 6 1 12 6 1)) (rotation_matrix (1, 0, 0) (0, 0, 1) (0, - 1, 0))"
    by (simp add: element_matrix_def calcKelem_closed [OF asm_inv_new v] A K)
  have "\<forall>r\<in>{0, 1, 2, 3, 4, 5, 6, 7, 8, 9, 10, 11}. \<forall>c\<in>{0, 1, 2, 3, 4, 5, 6, 7, 8, 9, 10, 11}.
     element_matrix JOB_CANTILEVER 0 (r, c) = beam_stiffness 1 1 12 6 1 12 6 1 (r, c)"
    unfolding E
    by (simp add: mat_mul_def mat_transpose_def sum_lt12 rotation_matrix_def beam_stiffness_def)
  with lt12_cases [OF assms(1)] lt12_cases [OF assms(2)] show ?thesis by blast
qed

lemma cantilever_stiffness:
  assumes "GlobalStiffAssembler_call GlobalStiffAssembler_new (SparseMat_new 20 20) JOB_CANTILEVER []
             = Inr (s', Kphys)"
    and "r < 12" and "c < 12"
  shows "coeff Kphys (r, c) = beam_stiffness 1 1 12 6 1 12 6 1 (r, c)"
proof -
  have v: "\<forall>i<length (elems JOB_CANTILEVER). valid_elem JOB_CANTILEVER i"
    by (simp add: valid_elem_def JOB_CANTILEVER_def in_range_def)
  have "coeff Kphys (r, c) =
      (\<Sum>i<length (elems JOB_CANTILEVER).
         elem_contribution (elem_node1 JOB_CANTILEVER i) (elem_node2 JOB_CANTILEVER i)
           (element_matrix JOB_CANTILEVER i) (r, c)) + triplet_sum (loadTies [] []) (r, c)"
    using assemble_result [OF asm_inv_new v, of "[]" "SparseMat_new 20 20"] assms(1)
    by (auto simp: JOB_CANTILEVER_def SparseMat_new_def)
  also have "\<dots> = elem_contribution 0 (Suc 0) (element_matrix JOB_CANTILEVER 0) (r, c)"
    by (simp add: JOB_CANTILEVER_def elem_node1_def elem_node2_def loadTies_def)
  finally show ?thesis
    using assms(2,3) by (simp add: elem_contribution_first_nodes cantilever_element_matrix)
qed

text \<open>
  Claim C7. On an input that respects the data model, when the solver returns \<open>x\<close> for the
  system built and the requested files can be written, \<^verbatim>\<open>solve\<close> returns a summary whose
  nodal forces are the \<open>|nodes|\<close> by 6 reshape of \<open>r = K_free u\<close>: entry \<open>(i, j)\<close> is the sum
  over \<open>c < 6 |nodes|\<close> of \<open>K[6 i + j, c] x[c]\<close>, where \<open>K\<close> is the matrix assembled from
  elements and ties (before the Lagrange rows are added), replaced by 0 when its magnitude
  is strictly below \<open>epsilon\<close>; and whose nodal displacements are the reshape of the leading
  \<open>6 |nodes|\<close> entries of \<open>x\<close>, each replaced by 0 when its magnitude is strictly below
  \<open>epsilon\<close>.
\<close>

theorem solve_nodal_forces:
  assumes "valid_input job BCs forces ties"
    and "outputs_ok can_open options job"
    and "build_system job BCs forces ties = Inr (Kg, force_vec)"
    and "solver Kg force_vec = Some x"
    and "GlobalStiffAssembler_call GlobalStiffAssembler_new
           (SparseMat_new (6 * length (nodes job) + length BCs) (6 * length (nodes job) + length BCs))
           job ties = Inr (s', Kphys)"
  shows "\<exists>summary. solve solver can_open job BCs forces ties options = Inr summary \<and>
           nodal_forces summary =
             map (\<lambda>i. map (\<lambda>j.
                   let r = (\<Sum>c<6 * length (nodes job). coeff Kphys (6 * i + j, c) * x c)
                   in if \<bar>r\<bar> < epsilon options then 0 else r) [0..<6])
                 [0..<length (nodes job)] \<and>
           nodal_displacements summary =
             map (\<lambda>i. map (\<lambda>j. if \<bar>x (6 * i + j)\<bar> < epsilon options then 0 else x (6 * i + j))
                   [0..<6])
                 [0..<length (nodes job)]"
proof -
  let ?n = "length (nodes job)"
  from build_system_total [OF assms(1)] assms(3,5)
  have tl: "topLeftCorner Kg (6 * ?n) (6 * ?n) = topLeftCorner Kphys (6 * ?n) (6 * ?n)"
    by auto
  have prod: "sparse_times (topLeftCorner Kphys (6 * ?n) (6 * ?n)) x (6 * i + j) =
          (\<Sum>c<6 * ?n. coeff Kphys (6 * i + j, c) * x c)" if "i < ?n" and "j < 6" for i j
    using that by (intro sparse_times_topLeftCorner) simp
  have nf: "map (\<lambda>i. map (\<lambda>j. round_eps (epsilon options)
                   (sparse_times (topLeftCorner Kphys (6 * ?n) (6 * ?n)) x (6 * i + j))) [0..<6])
                 [0..<?n] =
            map (\<lambda>i. map (\<lambda>j.
                   let r = (\<Sum>c<6 * ?n. coeff Kphys (6 * i + j, c) * x c)
                   in if \<bar>r\<bar> < epsilon options then 0 else r) [0..<6])
                 [0..<?n]"
    by (intro map_cong refl) (simp add: prod round_eps_def Let_def)
  have nd: "map (\<lambda>i. map (\<lambda>j. round_eps (epsilon options) (x (6 * i + j))) [0..<6]) [0..<?n] =
            map (\<lambda>i. map (\<lambda>j. if \<bar>x (6 * i + j)\<bar> < epsilon options then 0 else x (6 * i + j))
                   [0..<6]) [0..<?n]"
    by (simp add: round_eps_def)
  from solve_result [where solver = solver and x = x and job = job and BCs = BCs
      and forces = forces and ties = ties and can_open = can_open and options = options
      and Kg = Kg and force_vec = force_vec, OF assms(1-4)]
  show ?thesis unfolding tl nf nd by auto
qed

text \<open>Witness for C7: the test \<^verbatim>\<open>CorrectTipForcesCantileverBeam\<close>. The nodal forces are
  those that the test expects; the \<open>10^-16\<close> of the solution and the forces of magnitude
  \<open>1.2 10^-15\<close> and \<open>6 10^-16\<close> that it causes are rounded to 0.\<close>

theorem solve_nodal_forces_witness:
  "\<exists>summary.
     solve (\<lambda>Kg f. Some SOLUTION_TIP_FORCES) (\<lambda>name. True) JOB_CANTILEVER BCS_TIP_FORCES [] []
       OPTIONS_TIP_FORCES = Inr summary \<and>
     nodal_forces summary = [[- 1 / 10, - 3 / 10, 0, 0, 0, - 3 / 10], [1 / 10, 3 / 10, 0, 0, 0, 0]] \<and>
     nodal_displacements summary = [[0, 0, 0, 0, 0, 0], [1 / 10, 1 / 10, 0, 0, 0, 3 / 20]]"
proof -
  from build_system_total [OF valid_JOB_CANTILEVER] obtain s' Kphys Kg fv where
    asm: "GlobalStiffAssembler_call GlobalStiffAssembler_new (SparseMat_new 20 20) JOB_CANTILEVER []
            = Inr (s', Kphys)" and
    build: "build_system JOB_CANTILEVER BCS_TIP_FORCES [] [] = Inr (Kg, fv)"
    by (auto simp: JOB_CANTILEVER_def BCS_TIP_FORCES_def)
  have out: "outputs_ok (\<lambda>name. True) OPTIONS_TIP_FORCES JOB_CANTILEVER"
    by (simp add: outputs_ok_def JOB_CANTILEVER_def)
  have l: "length (nodes JOB_CANTILEVER) = 2" "length BCS_TIP_FORCES = 8"
    by (simp_all add: JOB_CANTILEVER_def BCS_TIP_FORCES_def)
  have e: "epsilon OPTIONS_TIP_FORCES = 1 / 10 ^ 14"
    by (simp add: OPTIONS_TIP_FORCES_def Options_default_def)
  from solve_nodal_forces [OF valid_JOB_CANTILEVER out build,
      of "\<lambda>Kg f. Some SOLUTION_TIP_FORCES" SOLUTION_TIP_FORCES s' Kphys] asm
  obtain summary where
    run: "solve (\<lambda>Kg f. Some SOLUTION_TIP_FORCES) (\<lambda>name. True) JOB_CANTILEVER BCS_TIP_FORCES [] []
            OPTIONS_TIP_FORCES = Inr summary" and
    nf: "nodal_forces summary =
       map (\<lambda>i. map (\<lambda>j.
             let r = (\<Sum>c<12. coeff Kphys (6 * i + j, c) * SOLUTION_TIP_FORCES c)
             in if \<bar>r\<bar> < 1 / 10 ^ 14 then 0 else r) [0..<6]) [0..<2]" and
    nd: "nodal_displacements summary =
       map (\<lambda>i. map (\<lambda>j. if \<bar>SOLUTION_TIP_FORCES (6 * i + j)\<bar> < 1 / 10 ^ 14 then 0
                           else SOLUTION_TIP_FORCES (6 * i + j)) [0..<6]) [0..<2]"
    unfolding l e by auto
  have prod: "(\<Sum>c<12. coeff Kphys (r, c) * SOLUTION_TIP_FORCES c) =
        beam_stiffness 1 1 12 6 1 12 6 1 (r, 6) / 10 + beam_stiffness 1 1 12 6 1 12 6 1 (r, 7) / 10 +
        beam_stiffness 1 1 12 6 1 12 6 1 (r, 8) / 10 ^ 16 +
        beam_stiffness 1 1 12 6 1 12 6 1 (r, 11) * 3 / 20" if "r < 12" for r
    using that by (simp add: sum_lt12 SOLUTION_TIP_FORCES_def cantilever_stiffness [OF asm])
  have "nodal_forces summary =
          [[- 1 / 10, - 3 / 10, 0, 0, 0, - 3 / 10], [1 / 10, 3 / 10, 0, 0, 0, 0]]"
    unfolding nf by (simp add: upt_rec prod beam_stiffness_def Let_def)
  moreover have "nodal_displacements summary = [[0, 0, 0, 0, 0, 0], [1 / 10, 1 / 10, 0, 0, 0, 3 / 20]]"
    unfolding nd by (simp add: upt_rec SOLUTION_TIP_FORCES_def)
  ultimately show ?thesis using run by blast
qed

section \<open>Equation constraints\<close>





text \<open>Without equation constraints the system is the one that the \<^verbatim>\<open>solve\<close> of
  threed_beam_fea.cpp builds.\<close>

lemma build_system_equations_Nil:
  assumes "6 * length (nodes job) + length BCs < 2 ^ 31"
  shows "build_system_equations job BCs forces ties [] = build_system job BCs forces ties"
proof -
  define N where "N = 6 * length (nodes job) + length BCs"
  have s: "system_size job BCs = int N"
    unfolding N_def using assms by (rule system_size_eq)
  show ?thesis
    unfolding build_system_equations_def build_system_def s
    by (simp add: Let_def loadEquations_def N_def [symmetric] split: sum.splits prod.splits)
qed





end
